theory Spec2Isabelle
  imports
    Main
    "HOL-Library.Char_ord"
    "HOL-Library.List_Lexorder"
    "HOL-Library.Multiset"
    "HOL-Library.Word"
begin

section \<open>JSON values and the canonical serializer (utils/canonical.ts)\<close>

text \<open>
  A JavaScript value that is JSON-compatible: null, a boolean, a number, a string, an
  array, or a plain object.  An object is the list of its own enumerable properties in
  the order \<open>Object.keys\<close> reports them; a JavaScript object never holds one key
  twice.  A string is a list of code units below 256, ordered the way
  \<open>Array.prototype.sort\<close> orders them by default (lexicographically by code unit, a
  proper prefix first), which is the order of \<open>HOL-Library.List_Lexorder\<close> over
  \<open>HOL-Library.Char_ord\<close>.  The type of numbers is a parameter \<open>'n\<close>.
\<close>

datatype 'n json =
    JNull
  | JBool bool
  | JNum 'n
  | JStr string
  | JArr "'n json list"
  | JObj "(string \<times> 'n json) list"

text \<open>\<open>Array.prototype.join\<close>.\<close>

fun join :: "string \<Rightarrow> string list \<Rightarrow> string" where
  "join sep [] = []"
| "join sep [x] = x"
| "join sep (x # y # ys) = x @ sep @ join sep (y # ys)"

text \<open>
  \<open>JSON.stringify\<close> on a string (ECMAScript \<open>QuoteJSONString\<close>): the string in double
  quotes, with the quote, the backslash and the control characters escaped.
\<close>

definition hex_digit :: "nat \<Rightarrow> char" where
  "hex_digit n = (if n < 10 then char_of (48 + n) else char_of (87 + n))"

definition json_escape :: "char \<Rightarrow> string" where
  "json_escape c =
     (let n = (of_char c :: nat) in
      if n = 0x08 then [CHR 0x5C, CHR ''b'']
      else if n = 0x09 then [CHR 0x5C, CHR ''t'']
      else if n = 0x0A then [CHR 0x5C, CHR ''n'']
      else if n = 0x0C then [CHR 0x5C, CHR ''f'']
      else if n = 0x0D then [CHR 0x5C, CHR ''r'']
      else if n = 0x22 then [CHR 0x5C, CHR 0x22]
      else if n = 0x5C then [CHR 0x5C, CHR 0x5C]
      else if n < 0x20 then [CHR 0x5C, CHR ''u'', CHR ''0'', CHR ''0'', hex_digit (n div 16), hex_digit (n mod 16)]
      else [c])"

definition json_quote :: "string \<Rightarrow> string" where
  "json_quote s = [CHR 0x22] @ concat (map json_escape s) @ [CHR 0x22]"

text \<open>
  \<open>canonicalize\<close>, branch by branch.  The parameter \<open>ns\<close> is \<open>JSON.stringify\<close> on a
  number (the host's number formatting).  In the object branch the keys are sorted and
  each value is read back through its key (\<open>obj[k]\<close>); reading a key the object does not
  hold gives \<open>undefined\<close>, which \<open>canonicalize\<close> renders as \<open>null\<close>.  The final
  \<open>return ''\<close> of the source is for functions and symbols, which are not JSON values.
\<close>

function canonicalize :: "('n \<Rightarrow> string) \<Rightarrow> 'n json \<Rightarrow> string" where
  "canonicalize ns JNull = ''null''"
| "canonicalize ns (JBool b) = (if b then ''true'' else ''false'')"
| "canonicalize ns (JNum n) = ns n"
| "canonicalize ns (JStr s) = json_quote s"
| "canonicalize ns (JArr xs) = ''['' @ join '','' (map (canonicalize ns) xs) @ '']''"
| "canonicalize ns (JObj kvs) =
     (let keys = sort (map fst kvs);
          pairs = map (\<lambda>k. json_quote k @ '':'' @
                    (case map_of kvs k of Some v \<Rightarrow> canonicalize ns v | None \<Rightarrow> ''null'')) keys
      in ''{'' @ join '','' pairs @ ''}'')"
  by pat_completeness auto
termination
proof (relation "measure (\<lambda>(ns, v). size v)")
  show "wf (measure (\<lambda>(ns :: 'n \<Rightarrow> string, v :: 'n json). size v))"
    by simp
next
  fix ns :: "'n \<Rightarrow> string" and xs :: "'n json list" and x
  assume "x \<in> set xs"
  then have "size x < Suc (size_list size xs)"
    by (induction xs) auto
  then show "((ns, x), (ns, JArr xs)) \<in> measure (\<lambda>(ns, v). size v)"
    by simp
next
  fix ns :: "'n \<Rightarrow> string" and kvs :: "(string \<times> 'n json) list" and keys k v
  assume "map_of kvs k = Some v"
  then have "size v < Suc (size_list (size_prod (\<lambda>x. 0) size) kvs)"
    by (induction kvs) (auto split: if_splits)
  then show "((ns, v), (ns, JObj kvs)) \<in> measure (\<lambda>(ns, v). size v)"
    by simp
qed

text \<open>
  Two values that differ only in the order of object keys, at any depth: the relation
  between a value and its key-permuted copies.
\<close>

inductive key_permuted :: "'n json \<Rightarrow> 'n json \<Rightarrow> bool" where
  kp_same: "key_permuted v v"
| kp_arr: "length ys = length xs \<Longrightarrow> \<forall>i<length xs. key_permuted (xs ! i) (ys ! i)
     \<Longrightarrow> key_permuted (JArr xs) (JArr ys)"
| kp_obj: "distinct (map fst kvs) \<Longrightarrow> mset (map fst kvs') = mset (map fst kvs)
     \<Longrightarrow> \<forall>k\<in>set (map fst kvs). \<exists>v v'. map_of kvs k = Some v \<and> map_of kvs' k = Some v' \<and> key_permuted v v'
     \<Longrightarrow> key_permuted (JObj kvs) (JObj kvs')"

section \<open>Content hashing and identifiers (utils/canonical.ts)\<close>

text \<open>
  \<open>computeHash\<close>: the canonical string is encoded as bytes, digested, and every byte
  of the digest is rendered as two lowercase hexadecimal digits.  \<open>TextEncoder\<close>
  encodes in UTF-8: a code unit below 128 is one byte, and a code unit from 128 to 255 is
  two.  The digest primitive \<open>crypto.subtle.digest('SHA-256', _)\<close> belongs to the
  platform and is the parameter \<open>dg\<close>.
\<close>

type_synonym byte = "8 word"
type_synonym digest = "byte list \<Rightarrow> byte list"

definition utf8 :: "char \<Rightarrow> nat list" where
  "utf8 c = (let n = of_char c in if n < 128 then [n] else [192 + n div 64, 128 + n mod 64])"

definition encode :: "string \<Rightarrow> byte list" where
  "encode s = map of_nat (concat (map utf8 s))"

definition hex2 :: "byte \<Rightarrow> string" where
  "hex2 b = [hex_digit (unat b div 16), hex_digit (unat b mod 16)]"

definition computeHash :: "digest \<Rightarrow> ('n \<Rightarrow> string) \<Rightarrow> 'n json \<Rightarrow> string" where
  "computeHash dg ns data =
     (let canonical = canonicalize ns data;
          buffer = encode canonical;
          hashArray = dg buffer
      in concat (map hex2 hashArray))"

text \<open>
  \<open>generateId\<close>: \<open>ts\<close> stands for \<open>Date.now().toString(36)\<close> and \<open>rand\<close> for
  \<open>Math.random().toString(36).substring(2, 8)\<close>; both are read from the environment.
\<close>

definition generateId :: "string \<Rightarrow> string \<Rightarrow> string \<Rightarrow> string" where
  "generateId prefix ts rand = prefix @ ''_'' @ ts @ ''_'' @ rand"

section \<open>The data model (types/kernel.ts)\<close>

record LDSMeta =
  lds_v :: string
  lds_type :: string
  lds_id :: string
  created :: string
  updated :: string
  content_hash :: string

datatype EnergyLevel = Low | Medium | High
datatype Importance = Important | Optional | Someday
datatype TaskStatus = Pending | Active | Completed | Deferred
datatype EdgeType = Depends_on | Blocks | Related_to | Part_of | Scheduled_after
datatype Frequency = Daily | Weekdays | Weekly | Monthly

record MicroStep =
  step_id :: string
  step_text :: string
  completed :: bool

record TaskEdge =
  edge_id :: string
  source :: string
  target :: string
  edge_type :: EdgeType

text \<open>
  The numbers the hashed entities hold are weekday indices (\<open>0=Sun..6=Sat\<close>).  A
  number is taken from the non-negative safe integers, those below \<open>2^53\<close>, which are
  exact as doubles and which \<open>JSON.stringify\<close> prints in plain decimal.
\<close>

type_synonym jsnumber = "53 word"

record RecurringConfig =
  frequency :: Frequency
  days :: "jsnumber list option"
  time :: "string option"

text \<open>\<open>TaskData\<close> is \<open>Omit<Task, '$lds'>\<close>, the draft; a \<open>Task\<close> adds the metadata block.\<close>

record TaskData =
  title :: string
  description :: string
  status :: TaskStatus
  energy :: EnergyLevel
  importance :: Importance
  micro_steps :: "MicroStep list"
  due_date :: "string option"
  scheduled_date :: "string option"
  tags :: "string list"
  recurring :: "RecurringConfig option"
  completed_at :: "string option"
  created_at :: string
  updated_at :: string

record Task = TaskData +
  lds :: LDSMeta

datatype TimeOfDay = Morning | Afternoon | Evening | Anytime

record Routine =
  routine_lds :: LDSMeta
  name :: string
  routine_description :: string
  time_of_day :: TimeOfDay
  task_ids :: "string list"
  active :: bool

datatype AuditAction =
    Task_created | Task_edited | Task_completed | Task_deferred | Task_deleted
  | Routine_created | Routine_edited | Edge_created | Edge_deleted
  | Kernel_imported | Kernel_exported | Ai_suggestion_accepted | Ai_suggestion_rejected

datatype EntityType = ET_task | ET_routine | ET_edge | ET_kernel | ET_ai_suggestion

type_synonym jsvalue = "jsnumber json"

record AuditEntry =
  audit_id :: string
  timestamp :: string
  action :: AuditAction
  entity_type :: EntityType
  entity_id :: string
  details :: "(string \<times> jsvalue) list"

datatype Theme = Calm | Ocean | Forest | Sunset | Midnight
datatype ViewType = ListView | FocusView | GraphView | TimelineView | HistoryView
datatype AiProvider = Groq | Anthropic | Openai

record UserPreferences =
  theme :: Theme
  default_view :: ViewType
  max_visible_tasks :: int
  audio_enabled :: bool
  notifications_enabled :: bool
  ai_api_key :: "string option"
  ai_provider :: AiProvider

record Collections =
  tasks :: "Task list"
  edges :: "TaskEdge list"
  routines :: "Routine list"
  auditLog :: "AuditEntry list"
  preferences :: UserPreferences

record AppState = Collections +
  currentView :: ViewType
  selectedTaskId :: "string option"
  editingTaskId :: "string option"
  showTaskEditor :: bool
  isLoading :: bool
  aiSuggestion :: "string option"

subsection \<open>A task as the JavaScript object that is hashed\<close>

text \<open>\<open>JSON.stringify\<close> on a number: the decimal digits of a safe integer.\<close>

fun nat_dec :: "nat \<Rightarrow> string" where
  "nat_dec n = (if n < 10 then [hex_digit n] else nat_dec (n div 10) @ [hex_digit (n mod 10)])"

definition js_number :: "jsnumber \<Rightarrow> string" where
  "js_number i = nat_dec (unat i)"

definition status_str :: "TaskStatus \<Rightarrow> string" where
  "status_str s = (case s of Pending \<Rightarrow> ''pending'' | Active \<Rightarrow> ''active''
                    | Completed \<Rightarrow> ''completed'' | Deferred \<Rightarrow> ''deferred'')"

definition energy_str :: "EnergyLevel \<Rightarrow> string" where
  "energy_str e = (case e of Low \<Rightarrow> ''low'' | Medium \<Rightarrow> ''medium'' | High \<Rightarrow> ''high'')"

definition importance_str :: "Importance \<Rightarrow> string" where
  "importance_str i = (case i of Important \<Rightarrow> ''important'' | Optional \<Rightarrow> ''optional''
                        | Someday \<Rightarrow> ''someday'')"

definition frequency_str :: "Frequency \<Rightarrow> string" where
  "frequency_str f = (case f of Daily \<Rightarrow> ''daily'' | Weekdays \<Rightarrow> ''weekdays''
                       | Weekly \<Rightarrow> ''weekly'' | Monthly \<Rightarrow> ''monthly'')"

definition nullable :: "string option \<Rightarrow> jsvalue" where
  "nullable x = (case x of None \<Rightarrow> JNull | Some s \<Rightarrow> JStr s)"

definition lds_json :: "LDSMeta \<Rightarrow> jsvalue" where
  "lds_json m = JObj [(''v'', JStr (lds_v m)), (''type'', JStr (lds_type m)),
     (''id'', JStr (lds_id m)), (''created'', JStr (created m)),
     (''updated'', JStr (updated m)), (''content_hash'', JStr (content_hash m))]"

definition step_json :: "MicroStep \<Rightarrow> jsvalue" where
  "step_json s = JObj [(''id'', JStr (step_id s)), (''text'', JStr (step_text s)),
     (''completed'', JBool (completed s))]"

definition recurring_json :: "RecurringConfig \<Rightarrow> jsvalue" where
  "recurring_json r = JObj ([(''frequency'', JStr (frequency_str (frequency r)))]
     @ (case days r of None \<Rightarrow> [] | Some ds \<Rightarrow> [(''days'', JArr (map JNum ds))])
     @ (case time r of None \<Rightarrow> [] | Some t \<Rightarrow> [(''time'', JStr t)]))"

text \<open>
  The properties of a task object; their order does not matter to \<open>canonicalize\<close>,
  which sorts them.
\<close>

definition task_json :: "Task \<Rightarrow> jsvalue" where
  "task_json t = JObj [
     (''title'', JStr (title t)),
     (''description'', JStr (description t)),
     (''status'', JStr (status_str (status t))),
     (''energy'', JStr (energy_str (energy t))),
     (''importance'', JStr (importance_str (importance t))),
     (''micro_steps'', JArr (map step_json (micro_steps t))),
     (''due_date'', nullable (due_date t)),
     (''scheduled_date'', nullable (scheduled_date t)),
     (''tags'', JArr (map JStr (tags t))),
     (''recurring'', (case recurring t of None \<Rightarrow> JNull | Some r \<Rightarrow> recurring_json r)),
     (''completed_at'', nullable (completed_at t)),
     (''created_at'', JStr (created_at t)),
     (''updated_at'', JStr (updated_at t)),
     (''$lds'', lds_json (lds t))]"

text \<open>The content hash of a task as the service computes it: \<open>computeHash(task)\<close>.\<close>

definition task_hash :: "digest \<Rightarrow> Task \<Rightarrow> string" where
  "task_hash dg t = computeHash dg js_number (task_json t)"

text \<open>The task with its own integrity field cleared.\<close>

definition clear_hash :: "Task \<Rightarrow> Task" where
  "clear_hash t = t\<lparr>lds := (lds t)\<lparr>content_hash := []\<rparr>\<rparr>"

section \<open>The entity store (store/db.ts over IndexedDB)\<close>

text \<open>
  An IndexedDB object store with a key path holds at most one record per key and
  \<open>getAll\<close> returns the records in ascending key order.  A store is the list of its
  records in that order; \<open>key\<close> extracts a record's key.  \<open>put\<close> inserts or overwrites,
  \<open>delete\<close> removes the record with the key if there is one, \<open>add\<close> fails with a
  \<open>ConstraintError\<close> when the key is taken, \<open>clear\<close> empties the store.  Failures
  of the storage engine itself (quota, storage disabled) are outside the model.
\<close>

datatype error = ConstraintError | SyntaxError | TypeError | ReferenceError

fun os_put :: "('v \<Rightarrow> string) \<Rightarrow> 'v \<Rightarrow> 'v list \<Rightarrow> 'v list" where
  "os_put key v [] = [v]"
| "os_put key v (x # xs) =
     (if key v = key x then v # xs
      else if key v < key x then v # x # xs
      else x # os_put key v xs)"

definition os_delete :: "('v \<Rightarrow> string) \<Rightarrow> string \<Rightarrow> 'v list \<Rightarrow> 'v list" where
  "os_delete key k xs = filter (\<lambda>x. key x \<noteq> k) xs"

definition os_add :: "('v \<Rightarrow> string) \<Rightarrow> 'v \<Rightarrow> 'v list \<Rightarrow> error + 'v list" where
  "os_add key v xs = (if key v \<in> set (map key xs) then Inl ConstraintError else Inr (os_put key v xs))"

definition os_wf :: "('v \<Rightarrow> string) \<Rightarrow> 'v list \<Rightarrow> bool" where
  "os_wf key xs = (sorted (map key xs) \<and> distinct (map key xs))"

definition task_key :: "Task \<Rightarrow> string" where
  "task_key t = lds_id (lds t)"

definition routine_key :: "Routine \<Rightarrow> string" where
  "routine_key r = lds_id (routine_lds r)"

record Database =
  tasks_store :: "Task list"
  edges_store :: "TaskEdge list"
  routines_store :: "Routine list"
  audit_store :: "AuditEntry list"
  preferences_store :: "UserPreferences option"

definition db_wf :: "Database \<Rightarrow> bool" where
  "db_wf d = (os_wf task_key (tasks_store d) \<and> os_wf edge_id (edges_store d)
     \<and> os_wf routine_key (routines_store d) \<and> os_wf audit_id (audit_store d))"

definition getAllTasks :: "Database \<Rightarrow> Task list" where
  "getAllTasks d = tasks_store d"

definition putTask :: "Task \<Rightarrow> Database \<Rightarrow> Database" where
  "putTask task d = d\<lparr>tasks_store := os_put task_key task (tasks_store d)\<rparr>"

definition deleteTask :: "string \<Rightarrow> Database \<Rightarrow> Database" where
  "deleteTask taskId d = d\<lparr>tasks_store := os_delete task_key taskId (tasks_store d)\<rparr>"

definition getAllEdges :: "Database \<Rightarrow> TaskEdge list" where
  "getAllEdges d = edges_store d"

definition putEdge :: "TaskEdge \<Rightarrow> Database \<Rightarrow> Database" where
  "putEdge edge d = d\<lparr>edges_store := os_put edge_id edge (edges_store d)\<rparr>"

definition deleteEdge :: "string \<Rightarrow> Database \<Rightarrow> Database" where
  "deleteEdge edgeId d = d\<lparr>edges_store := os_delete edge_id edgeId (edges_store d)\<rparr>"

definition getAllRoutines :: "Database \<Rightarrow> Routine list" where
  "getAllRoutines d = routines_store d"

definition putRoutine :: "Routine \<Rightarrow> Database \<Rightarrow> Database" where
  "putRoutine routine d = d\<lparr>routines_store := os_put routine_key routine (routines_store d)\<rparr>"

definition getAllAuditEntries :: "Database \<Rightarrow> AuditEntry list" where
  "getAllAuditEntries d = audit_store d"

definition appendAudit :: "AuditEntry \<Rightarrow> Database \<Rightarrow> error + Database" where
  "appendAudit entry d =
     (case os_add audit_id entry (audit_store d) of
        Inl e \<Rightarrow> Inl e
      | Inr a \<Rightarrow> Inr (d\<lparr>audit_store := a\<rparr>))"

text \<open>The preferences store holds the one record keyed \<open>user_prefs\<close>, or nothing.\<close>

definition getPreferences :: "Database \<Rightarrow> UserPreferences option" where
  "getPreferences d = preferences_store d"

definition putPreferences :: "UserPreferences \<Rightarrow> Database \<Rightarrow> Database" where
  "putPreferences prefs d = d\<lparr>preferences_store := Some prefs\<rparr>"

definition isSeeded :: "Database \<Rightarrow> bool" where
  "isSeeded d = (length (tasks_store d) > 0)"

text \<open>The document \<open>exportKernel\<close> returns.\<close>

record KernelDoc =
  doc_tasks :: "Task list"
  doc_edges :: "TaskEdge list"
  doc_routines :: "Routine list"
  doc_audit :: "AuditEntry list"
  doc_preferences :: "UserPreferences option"

definition exportKernel :: "Database \<Rightarrow> KernelDoc" where
  "exportKernel d = \<lparr>doc_tasks = getAllTasks d, doc_edges = getAllEdges d,
     doc_routines = getAllRoutines d, doc_audit = getAllAuditEntries d,
     doc_preferences = getPreferences d\<rparr>"

text \<open>
  What \<open>importKernel\<close> is handed at run time is whatever \<open>JSON.parse\<close> returned, so
  each of \<open>data.tasks\<close>, \<open>data.edges\<close> and \<open>data.routines\<close> is either an array of
  entities or nothing that \<open>for ... of\<close> can iterate (the property is missing, or
  \<open>data\<close> is \<open>null\<close> or not an object), which is \<open>None\<close> here;
  \<open>imp_preferences\<close> is \<open>None\<close> when \<open>data.preferences\<close> is missing or falsy.  The
  elements of an array are taken to be entities of the store they go to.

  \<open>importKernel\<close> clears and refills one store after the other.  Iterating a
  property that is not there throws a \<open>TypeError\<close>; nothing aborts the transaction, so
  the stores cleared and refilled before the throw stay as the import left them, the
  store being cleared at the time included.
\<close>

record ImportDoc =
  imp_tasks :: "Task list option"
  imp_edges :: "TaskEdge list option"
  imp_routines :: "Routine list option"
  imp_preferences :: "UserPreferences option"

definition importKernel :: "ImportDoc \<Rightarrow> Database \<Rightarrow> (error + unit) \<times> Database" where
  "importKernel data d =
     (let d0 = d\<lparr>tasks_store := []\<rparr>
      in case imp_tasks data of
           None \<Rightarrow> (Inl TypeError, d0)
         | Some ts \<Rightarrow>
             (let d1 = d0\<lparr>tasks_store := foldl (\<lambda>st task. os_put task_key task st) [] ts,
                         edges_store := []\<rparr>
              in case imp_edges data of
                   None \<Rightarrow> (Inl TypeError, d1)
                 | Some es \<Rightarrow>
                     (let d2 = d1\<lparr>edges_store := foldl (\<lambda>st edge. os_put edge_id edge st) [] es,
                                 routines_store := []\<rparr>
                      in case imp_routines data of
                           None \<Rightarrow> (Inl TypeError, d2)
                         | Some rs \<Rightarrow>
                             (let d3 = d2\<lparr>routines_store :=
                                    foldl (\<lambda>st routine. os_put routine_key routine st) [] rs\<rparr>
                              in case imp_preferences data of
                                   None \<Rightarrow> (Inr (), d3)
                                 | Some prefs \<Rightarrow>
                                     (Inr (), d3\<lparr>preferences_store := Some prefs\<rparr>)))))"

text \<open>An export document as \<open>JSON.parse\<close> gives it back from its text.\<close>

definition parsed_export :: "KernelDoc \<Rightarrow> ImportDoc" where
  "parsed_export doc = \<lparr>imp_tasks = Some (doc_tasks doc), imp_edges = Some (doc_edges doc),
     imp_routines = Some (doc_routines doc), imp_preferences = doc_preferences doc\<rparr>"

section \<open>The in-memory mirror and its reducer (store/context.tsx)\<close>

datatype Action =
    SET_LOADING bool
  | LOAD_ALL Collections
  | SET_VIEW ViewType
  | SELECT_TASK "string option"
  | SET_EDITING "string option"
  | SHOW_EDITOR bool
  | UPSERT_TASK Task
  | REMOVE_TASK string
  | UPSERT_EDGE TaskEdge
  | REMOVE_EDGE string
  | ADD_AUDIT AuditEntry
  | SET_PREFERENCES UserPreferences
  | SET_AI_SUGGESTION "string option"
  | UPSERT_ROUTINE Routine

text \<open>\<open>defaultPreferences\<close> lives in data/seed and is the parameter \<open>dp\<close>.\<close>

definition initialState :: "UserPreferences \<Rightarrow> AppState" where
  "initialState dp = \<lparr>tasks = [], edges = [], routines = [], auditLog = [],
     preferences = dp, currentView = ListView, selectedTaskId = None, editingTaskId = None,
     showTaskEditor = False, isLoading = True, aiSuggestion = None\<rparr>"

fun reducer :: "AppState \<Rightarrow> Action \<Rightarrow> AppState" where
  "reducer state (SET_LOADING payload) = state\<lparr>isLoading := payload\<rparr>"
| "reducer state (LOAD_ALL payload) =
     state\<lparr>tasks := tasks payload, edges := edges payload, routines := routines payload,
       auditLog := auditLog payload, preferences := preferences payload,
       currentView := default_view (preferences payload), isLoading := False\<rparr>"
| "reducer state (SET_VIEW payload) = state\<lparr>currentView := payload\<rparr>"
| "reducer state (SELECT_TASK payload) = state\<lparr>selectedTaskId := payload\<rparr>"
| "reducer state (SET_EDITING payload) =
     state\<lparr>editingTaskId := payload, showTaskEditor := (payload \<noteq> None)\<rparr>"
| "reducer state (SHOW_EDITOR payload) =
     state\<lparr>showTaskEditor := payload,
       editingTaskId := (if payload then editingTaskId state else None)\<rparr>"
| "reducer state (UPSERT_TASK payload) =
     (case find (\<lambda>t. lds_id (lds t) = lds_id (lds payload)) (tasks state) of
        Some exists \<Rightarrow>
          state\<lparr>tasks := map (\<lambda>t. if lds_id (lds t) = lds_id (lds payload) then payload else t)
                            (tasks state)\<rparr>
      | None \<Rightarrow> state\<lparr>tasks := tasks state @ [payload]\<rparr>)"
| "reducer state (REMOVE_TASK payload) =
     state\<lparr>tasks := filter (\<lambda>t. lds_id (lds t) \<noteq> payload) (tasks state),
       edges := filter (\<lambda>e. source e \<noteq> payload \<and> target e \<noteq> payload) (edges state)\<rparr>"
| "reducer state (UPSERT_EDGE payload) =
     (case find (\<lambda>e. edge_id e = edge_id payload) (edges state) of
        Some exists \<Rightarrow>
          state\<lparr>edges := map (\<lambda>e. if edge_id e = edge_id payload then payload else e)
                            (edges state)\<rparr>
      | None \<Rightarrow> state\<lparr>edges := edges state @ [payload]\<rparr>)"
| "reducer state (REMOVE_EDGE payload) =
     state\<lparr>edges := filter (\<lambda>e. edge_id e \<noteq> payload) (edges state)\<rparr>"
| "reducer state (ADD_AUDIT payload) = state\<lparr>auditLog := auditLog state @ [payload]\<rparr>"
| "reducer state (SET_PREFERENCES payload) = state\<lparr>preferences := payload\<rparr>"
| "reducer state (SET_AI_SUGGESTION payload) = state\<lparr>aiSuggestion := payload\<rparr>"
| "reducer state (UPSERT_ROUTINE payload) =
     (case find (\<lambda>r. lds_id (routine_lds r) = lds_id (routine_lds payload)) (routines state) of
        Some exists \<Rightarrow>
          state\<lparr>routines :=
            map (\<lambda>r. if lds_id (routine_lds r) = lds_id (routine_lds payload) then payload else r)
              (routines state)\<rparr>
      | None \<Rightarrow> state\<lparr>routines := routines state @ [payload]\<rparr>)"

section \<open>The mutation service (store/context.tsx)\<close>

text \<open>
  The service runs over the durable store and the in-memory mirror together.  Every
  operation runs to completion before the next one starts.  What an operation reads from
  the clock and the random source is handed to it in an \<open>Env\<close>: \<open>gen_ts\<close> and
  \<open>gen_rand\<close> feed the operation's own \<open>generateId\<close>, \<open>date1\<close> and \<open>date2\<close> are its
  \<open>new Date().toISOString()\<close> readings in program order, and \<open>audit_ts\<close>, \<open>audit_rand\<close>,
  \<open>audit_date\<close> are the readings of \<open>createAuditEntry\<close>.

  \<open>completeTask\<close>, \<open>deferTask\<close>, \<open>removeTask\<close> and \<open>updatePreferences\<close> are
  callbacks that close over \<open>state.tasks\<close>, \<open>state.edges\<close> or \<open>state.preferences\<close> of
  the render that created them (the dependency lists of \<open>useCallback\<close>).  What such a
  callback reads as \<open>state\<close> is that render's mirror, the parameter \<open>snapshot\<close>; it is
  the current mirror when the callback comes from the latest render, and an earlier
  mirror when the caller still holds an older callback.  Dispatched actions always
  reduce the current mirror.
\<close>

record World =
  db :: Database
  state :: AppState

record Env =
  gen_ts :: string
  gen_rand :: string
  date1 :: string
  date2 :: string
  audit_ts :: string
  audit_rand :: string
  audit_date :: string

text \<open>utils/audit.ts\<close>

definition createAuditEntry ::
  "Env \<Rightarrow> AuditAction \<Rightarrow> EntityType \<Rightarrow> string \<Rightarrow> (string \<times> jsvalue) list \<Rightarrow> AuditEntry" where
  "createAuditEntry env act entityType entityId dets =
     \<lparr>audit_id = generateId ''audit'' (audit_ts env) (audit_rand env),
      timestamp = audit_date env,
      action = act,
      entity_type = entityType,
      entity_id = entityId,
      details = dets\<rparr>"

text \<open>
  An operation returns its result, or the error it throws, together with the world it
  leaves behind: what was written before a throw stays written.
\<close>

definition logAudit ::
  "Env \<Rightarrow> AuditAction \<Rightarrow> EntityType \<Rightarrow> string \<Rightarrow> (string \<times> jsvalue) list \<Rightarrow> World
     \<Rightarrow> (error + unit) \<times> World" where
  "logAudit env act entityType entityId dets w =
     (let entry = createAuditEntry env act entityType entityId dets
      in case appendAudit entry (db w) of
           Inl e \<Rightarrow> (Inl e, w)
         | Inr d \<Rightarrow> (Inr (), \<lparr>db = d, state = reducer (state w) (ADD_AUDIT entry)\<rparr>))"

text \<open>\<open>{...taskData, $lds: meta}\<close>\<close>

definition with_lds :: "TaskData \<Rightarrow> LDSMeta \<Rightarrow> Task" where
  "with_lds taskData meta =
     \<lparr>title = title taskData, description = description taskData, status = status taskData,
      energy = energy taskData, importance = importance taskData,
      micro_steps = micro_steps taskData, due_date = due_date taskData,
      scheduled_date = scheduled_date taskData, tags = tags taskData,
      recurring = recurring taskData, completed_at = completed_at taskData,
      created_at = created_at taskData, updated_at = updated_at taskData, lds = meta\<rparr>"

definition createTask :: "digest \<Rightarrow> Env \<Rightarrow> TaskData \<Rightarrow> World \<Rightarrow> (error + Task) \<times> World" where
  "createTask dg env taskData w =
     (let id = generateId ''task'' (gen_ts env) (gen_rand env);
          nowISO = date1 env;
          task0 = with_lds taskData
                    \<lparr>lds_v = ''1.0.0'', lds_type = ''kernel.task'', lds_id = id,
                     created = nowISO, updated = nowISO, content_hash = []\<rparr>;
          task = task0\<lparr>lds := (lds task0)\<lparr>content_hash := task_hash dg task0\<rparr>\<rparr>;
          w1 = \<lparr>db = putTask task (db w), state = reducer (state w) (UPSERT_TASK task)\<rparr>
      in case logAudit env Task_created ET_task id [(''title'', JStr (title task))] w1 of
           (Inl e, w2) \<Rightarrow> (Inl e, w2)
         | (Inr u, w2) \<Rightarrow> (Inr task, w2))"

definition updateTask :: "digest \<Rightarrow> Env \<Rightarrow> Task \<Rightarrow> World \<Rightarrow> (error + unit) \<times> World" where
  "updateTask dg env task w =
     (let task1 = task\<lparr>lds := (lds task)\<lparr>updated := date1 env\<rparr>\<rparr>;
          task2 = task1\<lparr>lds := (lds task1)\<lparr>content_hash := task_hash dg task1\<rparr>\<rparr>;
          w1 = \<lparr>db = putTask task2 (db w), state = reducer (state w) (UPSERT_TASK task2)\<rparr>
      in logAudit env Task_edited ET_task (lds_id (lds task2)) [(''title'', JStr (title task2))] w1)"

definition completeTask ::
  "digest \<Rightarrow> Env \<Rightarrow> AppState \<Rightarrow> string \<Rightarrow> World \<Rightarrow> (error + unit) \<times> World" where
  "completeTask dg env snapshot taskId w =
     (case find (\<lambda>t. lds_id (lds t) = taskId) (tasks snapshot) of
        None \<Rightarrow> (Inr (), w)
      | Some task \<Rightarrow>
          (let updated0 = task\<lparr>status := Completed, completed_at := Some (date1 env),
                 micro_steps := map (\<lambda>s. s\<lparr>completed := True\<rparr>) (micro_steps task)\<rparr>;
               updated1 = updated0\<lparr>lds := (lds updated0)\<lparr>updated := date2 env\<rparr>\<rparr>;
               updated2 = updated1\<lparr>lds := (lds updated1)\<lparr>content_hash := task_hash dg updated1\<rparr>\<rparr>;
               w1 = \<lparr>db = putTask updated2 (db w),
                     state = reducer (state w) (UPSERT_TASK updated2)\<rparr>
           in logAudit env Task_completed ET_task taskId [(''title'', JStr (title task))] w1))"

definition deferTask ::
  "digest \<Rightarrow> Env \<Rightarrow> AppState \<Rightarrow> string \<Rightarrow> World \<Rightarrow> (error + unit) \<times> World" where
  "deferTask dg env snapshot taskId w =
     (case find (\<lambda>t. lds_id (lds t) = taskId) (tasks snapshot) of
        None \<Rightarrow> (Inr (), w)
      | Some task \<Rightarrow>
          (let updated0 = task\<lparr>status := Deferred\<rparr>;
               updated1 = updated0\<lparr>lds := (lds updated0)\<lparr>updated := date1 env\<rparr>\<rparr>;
               updated2 = updated1\<lparr>lds := (lds updated1)\<lparr>content_hash := task_hash dg updated1\<rparr>\<rparr>;
               w1 = \<lparr>db = putTask updated2 (db w),
                     state = reducer (state w) (UPSERT_TASK updated2)\<rparr>
           in logAudit env Task_deferred ET_task taskId [(''title'', JStr (title task))] w1))"

text \<open>\<open>task?.title || 'Unknown'\<close>: a missing task and an empty title both give \<open>Unknown\<close>.\<close>

definition title_or_unknown :: "Task option \<Rightarrow> string" where
  "title_or_unknown task =
     (case task of None \<Rightarrow> ''Unknown'' | Some t \<Rightarrow> if title t = [] then ''Unknown'' else title t)"

definition removeTask :: "Env \<Rightarrow> AppState \<Rightarrow> string \<Rightarrow> World \<Rightarrow> (error + unit) \<times> World" where
  "removeTask env snapshot taskId w =
     (let task = find (\<lambda>t. lds_id (lds t) = taskId) (tasks snapshot);
          d1 = deleteTask taskId (db w);
          relatedEdges = filter (\<lambda>e. source e = taskId \<or> target e = taskId) (edges snapshot);
          d2 = foldl (\<lambda>d edge. deleteEdge (edge_id edge) d) d1 relatedEdges;
          w1 = \<lparr>db = d2, state = reducer (state w) (REMOVE_TASK taskId)\<rparr>
      in logAudit env Task_deleted ET_task taskId
           [(''title'', JStr (title_or_unknown task))] w1)"

definition edge_type_str :: "EdgeType \<Rightarrow> string" where
  "edge_type_str t = (case t of Depends_on \<Rightarrow> ''depends_on'' | Blocks \<Rightarrow> ''blocks''
     | Related_to \<Rightarrow> ''related_to'' | Part_of \<Rightarrow> ''part_of''
     | Scheduled_after \<Rightarrow> ''scheduled_after'')"

definition addEdge :: "Env \<Rightarrow> string \<Rightarrow> string \<Rightarrow> EdgeType \<Rightarrow> World \<Rightarrow> (error + unit) \<times> World" where
  "addEdge env src tgt ty w =
     (let edge = \<lparr>edge_id = generateId ''edge'' (gen_ts env) (gen_rand env),
                  source = src, target = tgt, edge_type = ty\<rparr>;
          w1 = \<lparr>db = putEdge edge (db w), state = reducer (state w) (UPSERT_EDGE edge)\<rparr>
      in logAudit env Edge_created ET_edge (edge_id edge)
           [(''source'', JStr src), (''target'', JStr tgt), (''type'', JStr (edge_type_str ty))] w1)"

definition removeEdge :: "Env \<Rightarrow> string \<Rightarrow> World \<Rightarrow> (error + unit) \<times> World" where
  "removeEdge env edgeId w =
     (let w1 = \<lparr>db = deleteEdge edgeId (db w), state = reducer (state w) (REMOVE_EDGE edgeId)\<rparr>
      in logAudit env Edge_deleted ET_edge edgeId [] w1)"

text \<open>
  \<open>Partial<UserPreferences>\<close>: every field present or absent.
\<close>

record PartialPreferences =
  p_theme :: "Theme option"
  p_default_view :: "ViewType option"
  p_max_visible_tasks :: "int option"
  p_audio_enabled :: "bool option"
  p_notifications_enabled :: "bool option"
  p_ai_api_key :: "string option option"
  p_ai_provider :: "AiProvider option"

definition merge_preferences :: "UserPreferences \<Rightarrow> PartialPreferences \<Rightarrow> UserPreferences" where
  "merge_preferences p partial =
     \<lparr>theme = (case p_theme partial of None \<Rightarrow> theme p | Some x \<Rightarrow> x),
      default_view = (case p_default_view partial of None \<Rightarrow> default_view p | Some x \<Rightarrow> x),
      max_visible_tasks =
        (case p_max_visible_tasks partial of None \<Rightarrow> max_visible_tasks p | Some x \<Rightarrow> x),
      audio_enabled = (case p_audio_enabled partial of None \<Rightarrow> audio_enabled p | Some x \<Rightarrow> x),
      notifications_enabled =
        (case p_notifications_enabled partial of None \<Rightarrow> notifications_enabled p | Some x \<Rightarrow> x),
      ai_api_key = (case p_ai_api_key partial of None \<Rightarrow> ai_api_key p | Some x \<Rightarrow> x),
      ai_provider = (case p_ai_provider partial of None \<Rightarrow> ai_provider p | Some x \<Rightarrow> x)\<rparr>"

definition updatePreferences ::
  "AppState \<Rightarrow> PartialPreferences \<Rightarrow> World \<Rightarrow> (error + unit) \<times> World" where
  "updatePreferences snapshot partial w =
     (let updated_prefs = merge_preferences (preferences snapshot) partial
      in (Inr (), \<lparr>db = putPreferences updated_prefs (db w),
                   state = reducer (state w) (SET_PREFERENCES updated_prefs)\<rparr>))"

text \<open>
  The names store/context.tsx imports from store/db.ts (lines 6 to 13).  A call of a
  name that the module binds nowhere throws a \<open>ReferenceError\<close> when it is evaluated.
\<close>

definition db_imports :: "string list" where
  "db_imports = [''getAllTasks'', ''putTask'', ''deleteTask'', ''getAllEdges'', ''putEdge'',
     ''deleteEdge'', ''getAllRoutines'', ''putRoutine'', ''getAllAuditEntries'', ''appendAudit'',
     ''getPreferences'', ''putPreferences'', ''isSeeded'', ''importKernel'']"

text \<open>
  \<open>exportAllData\<close> calls \<open>exportKernel\<close> first and \<open>logAudit\<close> after it.  The value
  returned is the document that \<open>JSON.stringify\<close> would print.
\<close>

definition exportAllData :: "Env \<Rightarrow> World \<Rightarrow> (error + KernelDoc) \<times> World" where
  "exportAllData env w =
     (if ''exportKernel'' \<in> set db_imports then
        (let data = exportKernel (db w)
         in case logAudit env Kernel_exported ET_kernel ''full_export'' [] w of
              (Inl e, w1) \<Rightarrow> (Inl e, w1)
            | (Inr u, w1) \<Rightarrow> (Inr data, w1))
      else (Inl ReferenceError, w))"

text \<open>The five reads and the \<open>LOAD_ALL\<close> payload built from them.\<close>

definition read_all :: "UserPreferences \<Rightarrow> Database \<Rightarrow> Collections" where
  "read_all dp d = \<lparr>tasks = getAllTasks d, edges = getAllEdges d, routines = getAllRoutines d,
     auditLog = getAllAuditEntries d,
     preferences = (case getPreferences d of None \<Rightarrow> dp | Some prefs \<Rightarrow> prefs)\<rparr>"

text \<open>
  \<open>importData\<close> takes what \<open>JSON.parse\<close> makes of the text, \<open>None\<close> when the text
  does not parse.  When \<open>importKernel\<close> throws, the reload and the audit entry are
  skipped and the mirror stays as it was, whatever the store has become.
\<close>

definition importData ::
  "UserPreferences \<Rightarrow> Env \<Rightarrow> ImportDoc option \<Rightarrow> World \<Rightarrow> (error + unit) \<times> World" where
  "importData dp env parsed w =
     (case parsed of
        None \<Rightarrow> (Inl SyntaxError, w)
      | Some data \<Rightarrow>
          (case importKernel data (db w) of
             (Inl e, d1) \<Rightarrow> (Inl e, \<lparr>db = d1, state = state w\<rparr>)
           | (Inr u, d1) \<Rightarrow>
               (let w1 = \<lparr>db = d1, state = reducer (state w) (LOAD_ALL (read_all dp d1))\<rparr>
                in logAudit env Kernel_imported ET_kernel ''full_import'' [] w1)))"

text \<open>
  The world once the provider has loaded the store at mount; until then the application
  shows its loading screen and offers no operation.
\<close>

definition loaded :: "UserPreferences \<Rightarrow> Database \<Rightarrow> World" where
  "loaded dp d = \<lparr>db = d, state = reducer (initialState dp) (LOAD_ALL (read_all dp d))\<rparr>"

section \<open>Runs of the service\<close>

text \<open>
  The operations the provider hands to the views: the task, edge and preference
  operations, export and import, \<open>logAudit\<close>, and the four view setters, which only
  dispatch.  \<open>run\<close> performs one of them, with the snapshot its callback closed over,
  and forgets the value it returns.
\<close>

datatype Op =
    CreateTask TaskData
  | UpdateTask Task
  | CompleteTask string
  | DeferTask string
  | RemoveTask string
  | AddEdge string string EdgeType
  | RemoveEdge string
  | UpdatePreferences PartialPreferences
  | SetView ViewType
  | SelectTask "string option"
  | EditTask "string option"
  | ShowEditor bool
  | LogAudit AuditAction EntityType string "(string \<times> jsvalue) list"
  | ExportAllData
  | ImportData "ImportDoc option"

definition outcome :: "(error + 'a) \<times> World \<Rightarrow> (error + unit) \<times> World" where
  "outcome r = (case r of (Inl e, w) \<Rightarrow> (Inl e, w) | (Inr x, w) \<Rightarrow> (Inr (), w))"

fun run ::
  "digest \<Rightarrow> UserPreferences \<Rightarrow> Env \<Rightarrow> AppState \<Rightarrow> Op \<Rightarrow> World \<Rightarrow> (error + unit) \<times> World" where
  "run dg dp env snapshot (CreateTask taskData) w = outcome (createTask dg env taskData w)"
| "run dg dp env snapshot (UpdateTask task) w = updateTask dg env task w"
| "run dg dp env snapshot (CompleteTask taskId) w = completeTask dg env snapshot taskId w"
| "run dg dp env snapshot (DeferTask taskId) w = deferTask dg env snapshot taskId w"
| "run dg dp env snapshot (RemoveTask taskId) w = removeTask env snapshot taskId w"
| "run dg dp env snapshot (AddEdge src tgt ty) w = addEdge env src tgt ty w"
| "run dg dp env snapshot (RemoveEdge edgeId) w = removeEdge env edgeId w"
| "run dg dp env snapshot (UpdatePreferences partial) w = updatePreferences snapshot partial w"
| "run dg dp env snapshot (SetView view) w =
     (Inr (), w\<lparr>state := reducer (state w) (SET_VIEW view)\<rparr>)"
| "run dg dp env snapshot (SelectTask i) w =
     (Inr (), w\<lparr>state := reducer (state w) (SELECT_TASK i)\<rparr>)"
| "run dg dp env snapshot (EditTask i) w =
     (Inr (), w\<lparr>state := reducer (state w) (SET_EDITING i)\<rparr>)"
| "run dg dp env snapshot (ShowEditor b) w =
     (Inr (), w\<lparr>state := reducer (state w) (SHOW_EDITOR b)\<rparr>)"
| "run dg dp env snapshot (LogAudit act entityType entityId dets) w =
     logAudit env act entityType entityId dets w"
| "run dg dp env snapshot ExportAllData w = outcome (exportAllData env w)"
| "run dg dp env snapshot (ImportData parsed) w = importData dp env parsed w"

fun run_all ::
  "digest \<Rightarrow> UserPreferences \<Rightarrow> (Env \<times> AppState \<times> Op) list \<Rightarrow> World \<Rightarrow> World" where
  "run_all dg dp [] w = w"
| "run_all dg dp ((env, snapshot, op) # rest) w =
     run_all dg dp rest (snd (run dg dp env snapshot op w))"

text \<open>
  The worlds the program can be in: the store of an earlier session, whatever it holds,
  is loaded at mount, and from then on the world changes only through the operations,
  whether they succeed or throw, and whatever snapshot their callbacks hold.
\<close>

inductive reachable :: "digest \<Rightarrow> UserPreferences \<Rightarrow> World \<Rightarrow> bool" for dg dp where
  start: "db_wf d \<Longrightarrow> reachable dg dp (loaded dp d)"
| step: "reachable dg dp w \<Longrightarrow> reachable dg dp (snd (run dg dp env snapshot op w))"

text \<open>
  The nine mutating operations, when they have something to mutate: \<open>completeTask\<close> and
  \<open>deferTask\<close> return at once when their snapshot holds no task with the id.
\<close>

fun mutating :: "AppState \<Rightarrow> Op \<Rightarrow> bool" where
  "mutating snapshot (CreateTask taskData) = True"
| "mutating snapshot (UpdateTask task) = True"
| "mutating snapshot (CompleteTask taskId) =
     (find (\<lambda>t. lds_id (lds t) = taskId) (tasks snapshot) \<noteq> None)"
| "mutating snapshot (DeferTask taskId) =
     (find (\<lambda>t. lds_id (lds t) = taskId) (tasks snapshot) \<noteq> None)"
| "mutating snapshot (RemoveTask taskId) = True"
| "mutating snapshot (AddEdge src tgt ty) = True"
| "mutating snapshot (RemoveEdge edgeId) = True"
| "mutating snapshot ExportAllData = True"
| "mutating snapshot (ImportData parsed) = True"
| "mutating snapshot _ = False"

text \<open>The mirror's audit log holds the entries of the audit store.\<close>

definition audit_in_step :: "World \<Rightarrow> bool" where
  "audit_in_step w = (mset (auditLog (state w)) = mset (audit_store (db w)))"

text \<open>The array update the reducer performs in its three \<open>UPSERT\<close> cases.\<close>

definition upsert :: "('v \<Rightarrow> string) \<Rightarrow> 'v \<Rightarrow> 'v list \<Rightarrow> 'v list" where
  "upsert key v xs =
     (case find (\<lambda>x. key x = key v) xs of
        Some exists \<Rightarrow> map (\<lambda>x. if key x = key v then v else x) xs
      | None \<Rightarrow> xs @ [v])"

text \<open>
  \<open>appendAudit\<close> is an \<open>add\<close>: it succeeds exactly when the id generated for the new
  entry is not yet a key of the audit store.  \<open>logged\<close> is the world after a successful
  \<open>logAudit\<close>.
\<close>

definition audit_fresh :: "Env \<Rightarrow> World \<Rightarrow> bool" where
  "audit_fresh env w =
     (generateId ''audit'' (audit_ts env) (audit_rand env) \<notin> set (map audit_id (audit_store (db w))))"

definition logged :: "AuditEntry \<Rightarrow> World \<Rightarrow> World" where
  "logged entry w = \<lparr>db = (db w)\<lparr>audit_store := os_put audit_id entry (audit_store (db w))\<rparr>,
     state = (state w)\<lparr>auditLog := auditLog (state w) @ [entry]\<rparr>\<rparr>"

text \<open>
  The entity each task operation builds before it stores it, and the world after the
  store and the mirror have both taken an entity.
\<close>

definition new_task :: "digest \<Rightarrow> Env \<Rightarrow> TaskData \<Rightarrow> Task" where
  "new_task dg env taskData =
     (let task0 = with_lds taskData
                    \<lparr>lds_v = ''1.0.0'', lds_type = ''kernel.task'',
                     lds_id = generateId ''task'' (gen_ts env) (gen_rand env),
                     created = date1 env, updated = date1 env, content_hash = []\<rparr>
      in task0\<lparr>lds := (lds task0)\<lparr>content_hash := task_hash dg task0\<rparr>\<rparr>)"

definition edited_task :: "digest \<Rightarrow> Env \<Rightarrow> Task \<Rightarrow> Task" where
  "edited_task dg env task =
     (let task1 = task\<lparr>lds := (lds task)\<lparr>updated := date1 env\<rparr>\<rparr>
      in task1\<lparr>lds := (lds task1)\<lparr>content_hash := task_hash dg task1\<rparr>\<rparr>)"

definition completed_task :: "digest \<Rightarrow> Env \<Rightarrow> Task \<Rightarrow> Task" where
  "completed_task dg env task =
     (let updated0 = task\<lparr>status := Completed, completed_at := Some (date1 env),
            micro_steps := map (\<lambda>s. s\<lparr>completed := True\<rparr>) (micro_steps task)\<rparr>;
          updated1 = updated0\<lparr>lds := (lds updated0)\<lparr>updated := date2 env\<rparr>\<rparr>
      in updated1\<lparr>lds := (lds updated1)\<lparr>content_hash := task_hash dg updated1\<rparr>\<rparr>)"

definition deferred_task :: "digest \<Rightarrow> Env \<Rightarrow> Task \<Rightarrow> Task" where
  "deferred_task dg env task =
     (let updated0 = task\<lparr>status := Deferred\<rparr>;
          updated1 = updated0\<lparr>lds := (lds updated0)\<lparr>updated := date1 env\<rparr>\<rparr>
      in updated1\<lparr>lds := (lds updated1)\<lparr>content_hash := task_hash dg updated1\<rparr>\<rparr>)"

definition new_edge :: "Env \<Rightarrow> string \<Rightarrow> string \<Rightarrow> EdgeType \<Rightarrow> TaskEdge" where
  "new_edge env src tgt ty = \<lparr>edge_id = generateId ''edge'' (gen_ts env) (gen_rand env),
     source = src, target = tgt, edge_type = ty\<rparr>"

definition task_upserted :: "Task \<Rightarrow> World \<Rightarrow> World" where
  "task_upserted t w = \<lparr>db = putTask t (db w), state = reducer (state w) (UPSERT_TASK t)\<rparr>"

definition edge_upserted :: "TaskEdge \<Rightarrow> World \<Rightarrow> World" where
  "edge_upserted e w = \<lparr>db = putEdge e (db w), state = reducer (state w) (UPSERT_EDGE e)\<rparr>"

definition edge_removed :: "string \<Rightarrow> World \<Rightarrow> World" where
  "edge_removed edgeId w =
     \<lparr>db = deleteEdge edgeId (db w), state = reducer (state w) (REMOVE_EDGE edgeId)\<rparr>"

definition task_removed :: "AppState \<Rightarrow> string \<Rightarrow> World \<Rightarrow> World" where
  "task_removed snapshot taskId w =
     \<lparr>db = foldl (\<lambda>d edge. deleteEdge (edge_id edge) d) (deleteTask taskId (db w))
             (filter (\<lambda>e. source e = taskId \<or> target e = taskId) (edges snapshot)),
      state = reducer (state w) (REMOVE_TASK taskId)\<rparr>"

definition reloaded :: "UserPreferences \<Rightarrow> Database \<Rightarrow> World \<Rightarrow> World" where
  "reloaded dp d w = \<lparr>db = d, state = reducer (state w) (LOAD_ALL (read_all dp d))\<rparr>"

text \<open>
  What one operation does to the audit log: the audit store keeps its entries, or gains
  one, and so does the mirror's log when it was in step with the store.
\<close>

definition audit_same :: "World \<Rightarrow> World \<Rightarrow> bool" where
  "audit_same w w' =
     (mset (audit_store (db w')) = mset (audit_store (db w))
      \<and> (audit_in_step w \<longrightarrow> mset (auditLog (state w')) = mset (auditLog (state w))))"

definition audit_plus :: "AuditEntry \<Rightarrow> World \<Rightarrow> World \<Rightarrow> bool" where
  "audit_plus entry w w' =
     (mset (audit_store (db w')) = add_mset entry (mset (audit_store (db w)))
      \<and> (audit_in_step w \<longrightarrow>
            mset (auditLog (state w')) = add_mset entry (mset (auditLog (state w)))))"

section \<open>Sample data\<close>

text \<open>A digest without collisions, for evaluating the service on sample data.\<close>

definition plain_digest :: digest where
  "plain_digest bytes = bytes"

definition sample_prefs :: UserPreferences where
  "sample_prefs = \<lparr>theme = Calm, default_view = ListView, max_visible_tasks = 5,
     audio_enabled = False, notifications_enabled = False, ai_api_key = None,
     ai_provider = Groq\<rparr>"

text \<open>A store that holds the default preferences and no entity.\<close>

definition empty_db :: Database where
  "empty_db = \<lparr>tasks_store = [], edges_store = [], routines_store = [], audit_store = [],
     preferences_store = Some sample_prefs\<rparr>"

definition env1 :: Env where
  "env1 = \<lparr>gen_ts = ''mk1'', gen_rand = ''aaaaaa'', date1 = ''2026-02-20T10:00:00.000Z'',
     date2 = ''2026-02-20T10:00:00.001Z'', audit_ts = ''mk1'', audit_rand = ''bbbbbb'',
     audit_date = ''2026-02-20T10:00:00.002Z''\<rparr>"

definition env2 :: Env where
  "env2 = \<lparr>gen_ts = ''mk2'', gen_rand = ''cccccc'', date1 = ''2026-02-20T11:00:00.000Z'',
     date2 = ''2026-02-20T11:00:00.001Z'', audit_ts = ''mk2'', audit_rand = ''dddddd'',
     audit_date = ''2026-02-20T11:00:00.002Z''\<rparr>"

definition env3 :: Env where
  "env3 = \<lparr>gen_ts = ''mk3'', gen_rand = ''eeeeee'', date1 = ''2026-02-20T12:00:00.000Z'',
     date2 = ''2026-02-20T12:00:00.001Z'', audit_ts = ''mk3'', audit_rand = ''ffffff'',
     audit_date = ''2026-02-20T12:00:00.002Z''\<rparr>"

definition env4 :: Env where
  "env4 = \<lparr>gen_ts = ''mk4'', gen_rand = ''gggggg'', date1 = ''2026-02-20T13:00:00.000Z'',
     date2 = ''2026-02-20T13:00:00.001Z'', audit_ts = ''mk4'', audit_rand = ''hhhhhh'',
     audit_date = ''2026-02-20T13:00:00.002Z''\<rparr>"

definition milk :: TaskData where
  "milk = \<lparr>title = ''Buy milk'', description = [], status = Pending, energy = Low,
     importance = Someday,
     micro_steps = [\<lparr>step_id = ''ms_1'', step_text = ''find wallet'', completed = True\<rparr>,
                    \<lparr>step_id = ''ms_2'', step_text = ''walk to shop'', completed = False\<rparr>,
                    \<lparr>step_id = ''ms_3'', step_text = ''pay'', completed = False\<rparr>],
     due_date = None, scheduled_date = None, tags = [], recurring = None,
     completed_at = None, created_at = ''2026-02-20T10:00:00.000Z'',
     updated_at = ''2026-02-20T10:00:00.000Z''\<rparr>"

text \<open>The world loaded from that store.\<close>

definition world0 :: World where
  "world0 = loaded sample_prefs empty_db"

text \<open>The world after the sample task has been created.\<close>

definition world1 :: World where
  "world1 = snd (createTask plain_digest env1 milk world0)"

text \<open>
  A second task is created, and an edge says that the first task blocks the second.
\<close>

definition errand :: TaskData where
  "errand = milk\<lparr>title := ''Post letter'', micro_steps := []\<rparr>"

definition world2 :: World where
  "world2 = snd (createTask plain_digest env2 errand world1)"

definition world3 :: World where
  "world3 = snd (addEdge env3 ''task_mk1_aaaaaa'' ''task_mk2_cccccc'' Blocks world2)"

text \<open>
  A backup that holds the two tasks and an edge between them under an id of its own,
  and that lacks the \<open>routines\<close> array; and the world after \<open>importData\<close> was tried
  on it.
\<close>

definition backup_edge :: TaskEdge where
  "backup_edge = \<lparr>edge_id = ''edge_backup'', source = ''task_mk1_aaaaaa'',
     target = ''task_mk2_cccccc'', edge_type = Blocks\<rparr>"

definition backup :: ImportDoc where
  "backup = \<lparr>imp_tasks = Some (tasks_store (db world3)), imp_edges = Some [backup_edge],
     imp_routines = None, imp_preferences = None\<rparr>"

definition world4 :: World where
  "world4 = snd (importData sample_prefs env4 (Some backup) world3)"

definition env5 :: Env where
  "env5 = \<lparr>gen_ts = ''mk5'', gen_rand = ''iiiiii'', date1 = ''2026-02-20T14:00:00.000Z'',
     date2 = ''2026-02-20T14:00:00.001Z'', audit_ts = ''mk5'', audit_rand = ''jjjjjj'',
     audit_date = ''2026-02-20T14:00:00.002Z''\<rparr>"

text \<open>A task that was never stored, as an editor might hand it to \<open>updateTask\<close>.\<close>

definition ghost :: Task where
  "ghost = with_lds milk
     \<lparr>lds_v = ''1.0.0'', lds_type = ''kernel.task'', lds_id = ''task_ghost'',
      created = ''2026-02-19T09:00:00.000Z'', updated = ''2026-02-19T09:00:00.000Z'',
      content_hash = ''00''\<rparr>"

text \<open>Two spellings of one JSON value, the keys in different orders at both levels.\<close>

definition json_ba :: jsvalue where
  "json_ba = JObj [(''b'', JNum 1), (''a'', JObj [(''y'', JNull), (''x'', JBool True)])]"

definition json_ab :: jsvalue where
  "json_ab = JObj [(''a'', JObj [(''x'', JBool True), (''y'', JNull)]), (''b'', JNum 1)]"

section \<open>Properties of the canonical serializer\<close>

lemma sort_mset_eq:
  fixes xs ys :: "string list"
  assumes "mset xs = mset ys"
  shows "sort xs = sort ys"
  using assms by (metis sorted_list_of_multiset_mset)

lemma canonicalize_key_permuted:
  "key_permuted v v' \<Longrightarrow> canonicalize ns v = canonicalize ns v'"
proof (induction rule: key_permuted.induct)
  case (kp_same v)
  show ?case by simp
next
  case (kp_arr ys xs)
  have "map (canonicalize ns) xs = map (canonicalize ns) ys"
    using kp_arr by (intro nth_equalityI) auto
  then show ?case by simp
next
  case (kp_obj kvs kvs')
  have keys: "sort (map fst kvs') = sort (map fst kvs)"
    using kp_obj(2) by (rule sort_mset_eq)
  have "(case map_of kvs k of Some v \<Rightarrow> canonicalize ns v | None \<Rightarrow> ''null'')
      = (case map_of kvs' k of Some v \<Rightarrow> canonicalize ns v | None \<Rightarrow> ''null'')"
    if "k \<in> set (map fst kvs)" for k
  proof -
    from kp_obj(3) that obtain v v' where
      "map_of kvs k = Some v" "map_of kvs' k = Some v'" "canonicalize ns v = canonicalize ns v'"
      by blast
    then show ?thesis by simp
  qed
  then have "\<And>k. k \<in> set (sort (map fst kvs)) \<Longrightarrow>
      json_quote k @ '':'' @ (case map_of kvs k of Some v \<Rightarrow> canonicalize ns v | None \<Rightarrow> ''null'')
    = json_quote k @ '':'' @ (case map_of kvs' k of Some v \<Rightarrow> canonicalize ns v | None \<Rightarrow> ''null'')"
    by simp
  then have "map (\<lambda>k. json_quote k @ '':'' @
                 (case map_of kvs k of Some v \<Rightarrow> canonicalize ns v | None \<Rightarrow> ''null''))
               (sort (map fst kvs))
           = map (\<lambda>k. json_quote k @ '':'' @
                 (case map_of kvs' k of Some v \<Rightarrow> canonicalize ns v | None \<Rightarrow> ''null''))
               (sort (map fst kvs))"
    by (rule map_cong [OF refl])
  then show ?case
    unfolding canonicalize.simps Let_def keys
    by (rule arg_cong [where f = "\<lambda>ps. ''{'' @ join '','' ps @ ''}''"])
qed

text \<open>
  An object and a copy that lists the same properties in another order are related by
  \<open>key_permuted\<close>.
\<close>

lemma key_permuted_object:
  assumes "distinct (map fst kvs)" and "mset kvs' = mset kvs"
  shows "key_permuted (JObj kvs) (JObj kvs')"
proof (rule kp_obj)
  show "distinct (map fst kvs)" by (rule assms(1))
  show keys: "mset (map fst kvs') = mset (map fst kvs)"
    using assms(2) by (metis mset_map)
  have d': "distinct (map fst kvs')"
    using keys assms(1) by (metis mset_eq_imp_distinct_iff)
  have s: "set kvs' = set kvs" using assms(2) by (rule mset_eq_setD)
  show "\<forall>k\<in>set (map fst kvs). \<exists>v v'. map_of kvs k = Some v \<and> map_of kvs' k = Some v' \<and> key_permuted v v'"
  proof
    fix k assume "k \<in> set (map fst kvs)"
    then obtain v where v: "(k, v) \<in> set kvs" by auto
    then have "map_of kvs k = Some v" using assms(1) by simp
    moreover have "map_of kvs' k = Some v" using v s d' by simp
    ultimately show "\<exists>v v'. map_of kvs k = Some v \<and> map_of kvs' k = Some v' \<and> key_permuted v v'"
      using kp_same by blast
  qed
qed

section \<open>Properties of the entity store\<close>

lemma os_put_keys: "set (map key (os_put key v xs)) = insert (key v) (set (map key xs))"
  by (induction xs) auto

lemma os_put_mem: "v \<in> set (os_put key v xs)"
  by (induction xs) auto

lemma os_put_wf: "os_wf key xs \<Longrightarrow> os_wf key (os_put key v xs)"
  unfolding os_wf_def
proof (induction xs)
  case Nil
  then show ?case by simp
next
  case (Cons x xs)
  have k: "set (map key (os_put key v xs)) = insert (key v) (set (map key xs))"
    by (rule os_put_keys)
  show ?case using Cons k by (auto simp: less_le)
qed

lemma os_put_mset:
  "os_wf key xs \<Longrightarrow> mset (os_put key v xs) = add_mset v (filter_mset (\<lambda>x. key x \<noteq> key v) (mset xs))"
  unfolding os_wf_def
proof (induction xs)
  case Nil
  then show ?case by simp
next
  case (Cons x xs)
  show ?case
  proof (cases "key v = key x")
    case True
    then have "\<forall>y\<in>set xs. key y \<noteq> key v" using Cons.prems by (auto simp: image_iff)
    then have "filter_mset (\<lambda>x. key x \<noteq> key v) (mset xs) = mset xs"
      by (auto simp: filter_mset_eq_conv)
    then show ?thesis using True by simp
  next
    case False
    show ?thesis
    proof (cases "key v < key x")
      case True
      then have "\<forall>y\<in>set xs. key y \<noteq> key v" using Cons.prems by (auto simp: image_iff)
      then have "filter_mset (\<lambda>x. key x \<noteq> key v) (mset xs) = mset xs"
        by (auto simp: filter_mset_eq_conv)
      then show ?thesis using True False by simp
    next
      case nl: False
      then show ?thesis using False Cons by auto
    qed
  qed
qed

lemma os_delete_wf: "os_wf key xs \<Longrightarrow> os_wf key (os_delete key k xs)"
  unfolding os_wf_def os_delete_def
  by (induction xs) auto

lemma os_put_fresh_append:
  "\<forall>x\<in>set xs. key x < key v \<Longrightarrow> os_put key v xs = xs @ [v]"
  by (induction xs) auto

lemma os_put_foldl_append:
  "os_wf key (acc @ xs) \<Longrightarrow> foldl (\<lambda>st v. os_put key v st) acc xs = acc @ xs"
proof (induction xs arbitrary: acc)
  case Nil
  then show ?case by simp
next
  case (Cons x xs)
  have "\<forall>y\<in>set acc. key y < key x"
    using Cons.prems unfolding os_wf_def
    by (auto simp: sorted_append less_le image_iff)
  then have "os_put key x acc = acc @ [x]" by (rule os_put_fresh_append)
  moreover have "os_wf key ((acc @ [x]) @ xs)" using Cons.prems by simp
  ultimately show ?case using Cons.IH [of "acc @ [x]"] by simp
qed

lemma os_put_foldl_roundtrip:
  "os_wf key xs \<Longrightarrow> foldl (\<lambda>st v. os_put key v st) [] xs = xs"
  using os_put_foldl_append [of key "[]" xs] by simp

lemma os_put_foldl_wf:
  "os_wf key acc \<Longrightarrow> os_wf key (foldl (\<lambda>st v. os_put key v st) acc xs)"
  by (induction xs arbitrary: acc) (auto simp: os_put_wf)

section \<open>The operations, step by step\<close>

lemma os_put_mset_fresh:
  "key v \<notin> set (map key xs) \<Longrightarrow> mset (os_put key v xs) = add_mset v (mset xs)"
  by (induction xs) auto

lemma os_delete_mset: "mset (os_delete key k xs) = filter_mset (\<lambda>x. key x \<noteq> k) (mset xs)"
  by (simp add: os_delete_def)

lemma os_wf_filter: "os_wf key xs \<Longrightarrow> os_wf key (filter P xs)"
  by (simp add: os_wf_def sorted_filter distinct_map_filter)

lemma os_wf_Nil: "os_wf key []"
  by (simp add: os_wf_def)

lemma logAudit_ok:
  "audit_fresh env w \<Longrightarrow>
   logAudit env act et eid dets w = (Inr (), logged (createAuditEntry env act et eid dets) w)"
  by (simp add: audit_fresh_def logAudit_def appendAudit_def os_add_def createAuditEntry_def
      logged_def Let_def)

lemma logAudit_fail:
  "\<not> audit_fresh env w \<Longrightarrow> logAudit env act et eid dets w = (Inl ConstraintError, w)"
  by (simp add: audit_fresh_def logAudit_def appendAudit_def os_add_def createAuditEntry_def
      Let_def)

lemma logAudit_InrD:
  assumes "logAudit env act et eid dets w = (Inr u, w')"
  shows "audit_fresh env w \<and> w' = logged (createAuditEntry env act et eid dets) w"
proof (cases "audit_fresh env w")
  case True
  then show ?thesis using assms logAudit_ok [OF True, of act et eid dets] by simp
next
  case False
  then show ?thesis using assms logAudit_fail [OF False, of act et eid dets] by simp
qed

lemma reducer_upsert_task:
  "reducer st (UPSERT_TASK t) = st\<lparr>tasks := upsert task_key t (tasks st)\<rparr>"
  by (simp add: upsert_def task_key_def split: option.splits)

lemma reducer_upsert_edge:
  "reducer st (UPSERT_EDGE e) = st\<lparr>edges := upsert edge_id e (edges st)\<rparr>"
  by (simp add: upsert_def split: option.splits)

lemma audit_fresh_task_upserted [simp]: "audit_fresh env (task_upserted t w) = audit_fresh env w"
  by (simp add: audit_fresh_def task_upserted_def putTask_def)

lemma audit_fresh_edge_upserted [simp]: "audit_fresh env (edge_upserted e w) = audit_fresh env w"
  by (simp add: audit_fresh_def edge_upserted_def putEdge_def)

lemma audit_fresh_edge_removed [simp]: "audit_fresh env (edge_removed i w) = audit_fresh env w"
  by (simp add: audit_fresh_def edge_removed_def deleteEdge_def)

lemma foldl_deleteEdge:
  "foldl (\<lambda>d edge. deleteEdge (edge_id edge) d) d es =
     d\<lparr>edges_store := filter (\<lambda>x. edge_id x \<notin> set (map edge_id es)) (edges_store d)\<rparr>"
proof (induction es arbitrary: d)
  case Nil
  then show ?case by simp
next
  case (Cons e es)
  have "foldl (\<lambda>d edge. deleteEdge (edge_id edge) d) d (e # es)
        = foldl (\<lambda>d edge. deleteEdge (edge_id edge) d) (deleteEdge (edge_id e) d) es"
    by simp
  also have "\<dots> = (deleteEdge (edge_id e) d)\<lparr>edges_store :=
        filter (\<lambda>x. edge_id x \<notin> set (map edge_id es)) (edges_store (deleteEdge (edge_id e) d))\<rparr>"
    by (rule Cons.IH)
  also have "\<dots> = d\<lparr>edges_store :=
        filter (\<lambda>x. edge_id x \<notin> set (map edge_id (e # es))) (edges_store d)\<rparr>"
    by (simp add: deleteEdge_def os_delete_def)
  finally show ?case .
qed

lemma task_removed_db:
  "db (task_removed snapshot taskId w) =
     (db w)\<lparr>tasks_store := os_delete task_key taskId (tasks_store (db w)),
            edges_store := filter (\<lambda>x. edge_id x \<notin> set (map edge_id
                (filter (\<lambda>e. source e = taskId \<or> target e = taskId) (edges snapshot))))
              (edges_store (db w))\<rparr>"
  by (simp add: task_removed_def foldl_deleteEdge deleteTask_def)

lemma audit_fresh_task_removed [simp]:
  "audit_fresh env (task_removed snapshot i w) = audit_fresh env w"
  by (simp add: audit_fresh_def task_removed_db)

text \<open>\<open>importKernel\<close> never touches the audit store, and it keeps every store well formed.\<close>

lemma importKernel_audit: "audit_store (snd (importKernel data d)) = audit_store d"
  by (simp add: importKernel_def Let_def split: option.splits)

lemma importKernel_wf: "db_wf d \<Longrightarrow> db_wf (snd (importKernel data d))"
  by (simp add: importKernel_def Let_def db_wf_def os_put_foldl_wf os_wf_Nil split: option.splits)

lemma importKernel_ok:
  "imp_tasks data = Some ts \<Longrightarrow> imp_edges data = Some es \<Longrightarrow> imp_routines data = Some rs \<Longrightarrow>
   importKernel data d
     = (Inr (), d\<lparr>tasks_store := foldl (\<lambda>st task. os_put task_key task st) [] ts,
                  edges_store := foldl (\<lambda>st edge. os_put edge_id edge st) [] es,
                  routines_store := foldl (\<lambda>st routine. os_put routine_key routine st) [] rs,
                  preferences_store :=
                    (case imp_preferences data of None \<Rightarrow> preferences_store d
                     | Some prefs \<Rightarrow> Some prefs)\<rparr>)"
  by (simp add: importKernel_def Let_def split: option.splits)

text \<open>
  The two functions of store/db.ts undo each other: importing what \<open>exportKernel\<close>
  returns leaves the store as it was.
\<close>

lemma importKernel_exportKernel:
  assumes "db_wf d"
  shows "importKernel (parsed_export (exportKernel d)) d = (Inr (), d)"
proof -
  have "importKernel (parsed_export (exportKernel d)) d
      = (Inr (), d\<lparr>tasks_store := tasks_store d, edges_store := edges_store d,
                   routines_store := routines_store d,
                   preferences_store := preferences_store d\<rparr>)"
    using assms
    by (simp add: importKernel_def parsed_export_def exportKernel_def Let_def db_wf_def
        os_put_foldl_roundtrip getAllTasks_def getAllEdges_def getAllRoutines_def
        getAllAuditEntries_def getPreferences_def split: option.splits)
  then show ?thesis by simp
qed

lemma audit_fresh_reloaded [simp]:
  "audit_fresh env (reloaded dp d w) = (generateId ''audit'' (audit_ts env) (audit_rand env)
      \<notin> set (map audit_id (audit_store d)))"
  by (simp add: audit_fresh_def reloaded_def)

lemma createTask_eq:
  "createTask dg env taskData w =
     (case logAudit env Task_created ET_task (generateId ''task'' (gen_ts env) (gen_rand env))
             [(''title'', JStr (title taskData))] (task_upserted (new_task dg env taskData) w) of
        (Inl e, w2) \<Rightarrow> (Inl e, w2)
      | (Inr u, w2) \<Rightarrow> (Inr (new_task dg env taskData), w2))"
  by (simp add: createTask_def new_task_def task_upserted_def Let_def with_lds_def
      del: reducer.simps split: prod.splits sum.splits)

lemma updateTask_eq:
  "updateTask dg env task w =
     logAudit env Task_edited ET_task (lds_id (lds task)) [(''title'', JStr (title task))]
       (task_upserted (edited_task dg env task) w)"
  by (simp add: updateTask_def edited_task_def task_upserted_def Let_def del: reducer.simps)

lemma completeTask_eq:
  "find (\<lambda>t. lds_id (lds t) = taskId) (tasks snapshot) = Some task \<Longrightarrow>
   completeTask dg env snapshot taskId w =
     logAudit env Task_completed ET_task taskId [(''title'', JStr (title task))]
       (task_upserted (completed_task dg env task) w)"
  by (simp add: completeTask_def completed_task_def task_upserted_def Let_def del: reducer.simps)

lemma completeTask_none:
  "find (\<lambda>t. lds_id (lds t) = taskId) (tasks snapshot) = None \<Longrightarrow>
   completeTask dg env snapshot taskId w = (Inr (), w)"
  by (simp add: completeTask_def)

lemma deferTask_eq:
  "find (\<lambda>t. lds_id (lds t) = taskId) (tasks snapshot) = Some task \<Longrightarrow>
   deferTask dg env snapshot taskId w =
     logAudit env Task_deferred ET_task taskId [(''title'', JStr (title task))]
       (task_upserted (deferred_task dg env task) w)"
  by (simp add: deferTask_def deferred_task_def task_upserted_def Let_def del: reducer.simps)

lemma deferTask_none:
  "find (\<lambda>t. lds_id (lds t) = taskId) (tasks snapshot) = None \<Longrightarrow>
   deferTask dg env snapshot taskId w = (Inr (), w)"
  by (simp add: deferTask_def)

lemma removeTask_eq:
  "removeTask env snapshot taskId w =
     logAudit env Task_deleted ET_task taskId
       [(''title'', JStr (title_or_unknown (find (\<lambda>t. lds_id (lds t) = taskId) (tasks snapshot))))]
       (task_removed snapshot taskId w)"
  by (simp add: removeTask_def task_removed_def Let_def del: reducer.simps)

lemma addEdge_eq:
  "addEdge env src tgt ty w =
     logAudit env Edge_created ET_edge (generateId ''edge'' (gen_ts env) (gen_rand env))
       [(''source'', JStr src), (''target'', JStr tgt), (''type'', JStr (edge_type_str ty))]
       (edge_upserted (new_edge env src tgt ty) w)"
  by (simp add: addEdge_def new_edge_def edge_upserted_def Let_def del: reducer.simps)

lemma removeEdge_eq:
  "removeEdge env edgeId w = logAudit env Edge_deleted ET_edge edgeId [] (edge_removed edgeId w)"
  by (simp add: removeEdge_def edge_removed_def Let_def del: reducer.simps)

text \<open>The call of \<open>exportKernel\<close> throws: the name is not among the imports.\<close>

lemma exportAllData_throws: "exportAllData env w = (Inl ReferenceError, w)"
  by (simp add: exportAllData_def db_imports_def)

lemma importData_eq:
  "importData dp env (Some data) w =
     (case importKernel data (db w) of
        (Inl e, d1) \<Rightarrow> (Inl e, \<lparr>db = d1, state = state w\<rparr>)
      | (Inr u, d1) \<Rightarrow> logAudit env Kernel_imported ET_kernel ''full_import'' [] (reloaded dp d1 w))"
  by (simp add: importData_def reloaded_def Let_def del: reducer.simps
      split: prod.splits sum.splits)

lemma snd_relabel:
  "snd (case p of (Inl e, w2) \<Rightarrow> (Inl e, w2) | (Inr u, w2) \<Rightarrow> (Inr x, w2)) = snd p"
  by (cases p) (auto split: sum.splits)

lemma snd_outcome: "snd (outcome r) = snd r"
  by (cases r) (auto simp: outcome_def split: sum.splits)

lemma fst_relabel:
  "(fst (case p of (Inl e, w2) \<Rightarrow> (Inl e, w2) | (Inr u, w2) \<Rightarrow> (Inr x, w2)) = Inl e') = (fst p = Inl e')"
  "(\<exists>y. fst (case p of (Inl e, w2) \<Rightarrow> (Inl e, w2) | (Inr u, w2) \<Rightarrow> (Inr x, w2)) = Inr y)
     = (\<exists>u. fst p = Inr u)"
  by (cases p; cases "fst p"; auto)+

lemma fst_outcome:
  "(fst (outcome r) = Inr ()) = (\<exists>x. fst r = Inr x)"
  "(fst (outcome r) = Inl e) = (fst r = Inl e)"
  by (cases r; cases "fst r"; auto simp: outcome_def)+

section \<open>Selectors of the intermediate worlds\<close>

lemma logged_simps [simp]:
  "tasks_store (db (logged e w)) = tasks_store (db w)"
  "edges_store (db (logged e w)) = edges_store (db w)"
  "routines_store (db (logged e w)) = routines_store (db w)"
  "preferences_store (db (logged e w)) = preferences_store (db w)"
  "audit_store (db (logged e w)) = os_put audit_id e (audit_store (db w))"
  "tasks (state (logged e w)) = tasks (state w)"
  "edges (state (logged e w)) = edges (state w)"
  "routines (state (logged e w)) = routines (state w)"
  "preferences (state (logged e w)) = preferences (state w)"
  "auditLog (state (logged e w)) = auditLog (state w) @ [e]"
  by (simp_all add: logged_def)

lemma task_upserted_simps [simp]:
  "tasks_store (db (task_upserted t w)) = os_put task_key t (tasks_store (db w))"
  "edges_store (db (task_upserted t w)) = edges_store (db w)"
  "routines_store (db (task_upserted t w)) = routines_store (db w)"
  "preferences_store (db (task_upserted t w)) = preferences_store (db w)"
  "audit_store (db (task_upserted t w)) = audit_store (db w)"
  "tasks (state (task_upserted t w)) = upsert task_key t (tasks (state w))"
  "edges (state (task_upserted t w)) = edges (state w)"
  "routines (state (task_upserted t w)) = routines (state w)"
  "preferences (state (task_upserted t w)) = preferences (state w)"
  "auditLog (state (task_upserted t w)) = auditLog (state w)"
  unfolding task_upserted_def reducer_upsert_task by (simp_all add: putTask_def)

lemma edge_upserted_simps [simp]:
  "tasks_store (db (edge_upserted e w)) = tasks_store (db w)"
  "edges_store (db (edge_upserted e w)) = os_put edge_id e (edges_store (db w))"
  "routines_store (db (edge_upserted e w)) = routines_store (db w)"
  "preferences_store (db (edge_upserted e w)) = preferences_store (db w)"
  "audit_store (db (edge_upserted e w)) = audit_store (db w)"
  "tasks (state (edge_upserted e w)) = tasks (state w)"
  "edges (state (edge_upserted e w)) = upsert edge_id e (edges (state w))"
  "routines (state (edge_upserted e w)) = routines (state w)"
  "preferences (state (edge_upserted e w)) = preferences (state w)"
  "auditLog (state (edge_upserted e w)) = auditLog (state w)"
  unfolding edge_upserted_def reducer_upsert_edge by (simp_all add: putEdge_def)

lemma edge_removed_simps [simp]:
  "tasks_store (db (edge_removed i w)) = tasks_store (db w)"
  "edges_store (db (edge_removed i w)) = os_delete edge_id i (edges_store (db w))"
  "routines_store (db (edge_removed i w)) = routines_store (db w)"
  "preferences_store (db (edge_removed i w)) = preferences_store (db w)"
  "audit_store (db (edge_removed i w)) = audit_store (db w)"
  "tasks (state (edge_removed i w)) = tasks (state w)"
  "edges (state (edge_removed i w)) = filter (\<lambda>e. edge_id e \<noteq> i) (edges (state w))"
  "routines (state (edge_removed i w)) = routines (state w)"
  "preferences (state (edge_removed i w)) = preferences (state w)"
  "auditLog (state (edge_removed i w)) = auditLog (state w)"
  by (simp_all add: edge_removed_def deleteEdge_def)

lemma task_removed_simps [simp]:
  "tasks_store (db (task_removed snapshot i w)) = os_delete task_key i (tasks_store (db w))"
  "edges_store (db (task_removed snapshot i w))
     = filter (\<lambda>x. edge_id x \<notin> set (map edge_id
          (filter (\<lambda>e. source e = i \<or> target e = i) (edges snapshot)))) (edges_store (db w))"
  "routines_store (db (task_removed snapshot i w)) = routines_store (db w)"
  "preferences_store (db (task_removed snapshot i w)) = preferences_store (db w)"
  "audit_store (db (task_removed snapshot i w)) = audit_store (db w)"
  "tasks (state (task_removed snapshot i w)) = filter (\<lambda>t. lds_id (lds t) \<noteq> i) (tasks (state w))"
  "edges (state (task_removed snapshot i w))
     = filter (\<lambda>e. source e \<noteq> i \<and> target e \<noteq> i) (edges (state w))"
  "routines (state (task_removed snapshot i w)) = routines (state w)"
  "preferences (state (task_removed snapshot i w)) = preferences (state w)"
  "auditLog (state (task_removed snapshot i w)) = auditLog (state w)"
  by (simp_all add: task_removed_db) (simp_all add: task_removed_def)

lemma reloaded_simps [simp]:
  "db (reloaded dp d w) = d"
  "tasks (state (reloaded dp d w)) = tasks_store d"
  "edges (state (reloaded dp d w)) = edges_store d"
  "routines (state (reloaded dp d w)) = routines_store d"
  "preferences (state (reloaded dp d w))
     = (case preferences_store d of None \<Rightarrow> dp | Some prefs \<Rightarrow> prefs)"
  "auditLog (state (reloaded dp d w)) = audit_store d"
  by (simp_all add: reloaded_def read_all_def getAllTasks_def getAllEdges_def getAllRoutines_def
      getAllAuditEntries_def getPreferences_def)

lemma createAuditEntry_fields [simp]:
  "audit_id (createAuditEntry env act et eid dets) = generateId ''audit'' (audit_ts env) (audit_rand env)"
  "timestamp (createAuditEntry env act et eid dets) = audit_date env"
  "action (createAuditEntry env act et eid dets) = act"
  "entity_type (createAuditEntry env act et eid dets) = et"
  "entity_id (createAuditEntry env act et eid dets) = eid"
  "details (createAuditEntry env act et eid dets) = dets"
  by (simp_all add: createAuditEntry_def)

lemma audit_mset_logged:
  "audit_fresh env w \<Longrightarrow>
   mset (os_put audit_id (createAuditEntry env act et eid dets) (audit_store (db w)))
     = add_mset (createAuditEntry env act et eid dets) (mset (audit_store (db w)))"
  by (rule os_put_mset_fresh) (simp add: audit_fresh_def)

lemma audit_fresh_logged:
  "audit_fresh env' (logged e w)
     = (generateId ''audit'' (audit_ts env') (audit_rand env') \<noteq> audit_id e \<and> audit_fresh env' w)"
  unfolding audit_fresh_def logged_simps os_put_keys by auto

lemma os_put_length_fresh:
  "key v \<notin> set (map key xs) \<Longrightarrow> length (os_put key v xs) = Suc (length xs)"
  by (induction xs) auto

lemma logged_audit_length:
  "audit_fresh env w \<Longrightarrow>
   length (audit_store (db (logged (createAuditEntry env act et eid dets) w)))
     = Suc (length (audit_store (db w)))"
  unfolding logged_simps
  by (rule os_put_length_fresh) (simp add: audit_fresh_def)

lemma upsert_mem: "v \<in> set (upsert key v xs)"
  by (auto simp: upsert_def find_Some_iff split: option.splits intro: nth_mem)

lemma upsert_new: "find (\<lambda>x. key x = key v) xs = None \<Longrightarrow> upsert key v xs = xs @ [v]"
  by (simp add: upsert_def)

lemma upsert_key_unique:
  "x \<in> set (upsert key v xs) \<Longrightarrow> key x = key v \<Longrightarrow> x = v"
  by (auto simp: upsert_def find_None_iff split: option.splits if_splits)

lemma os_put_key_unique:
  assumes "os_wf key xs" and "x \<in> set (os_put key v xs)" and "key x = key v"
  shows "x = v"
proof -
  have "x \<in># add_mset v (filter_mset (\<lambda>y. key y \<noteq> key v) (mset xs))"
    using assms(2) os_put_mset [OF assms(1), of v] by (metis set_mset_mset)
  then show ?thesis using assms(3) by auto
qed

lemma find_Some_id:
  "find (\<lambda>t. lds_id (lds t) = i) ts = Some t \<Longrightarrow> lds_id (lds t) = i \<and> t \<in> set ts"
  by (auto simp: find_Some_iff)

lemma find_mem_Some:
  "t \<in> set ts \<Longrightarrow> \<exists>t'. find (\<lambda>x. lds_id (lds x) = lds_id (lds t)) ts = Some t'"
  by (cases "find (\<lambda>x. lds_id (lds x) = lds_id (lds t)) ts") (auto simp: find_None_iff)

lemma new_task_fields [simp]:
  "title (new_task dg env d) = title d"
  "status (new_task dg env d) = status d"
  "lds_id (lds (new_task dg env d)) = generateId ''task'' (gen_ts env) (gen_rand env)"
  "created (lds (new_task dg env d)) = date1 env"
  "updated (lds (new_task dg env d)) = date1 env"
  "task_key (new_task dg env d) = generateId ''task'' (gen_ts env) (gen_rand env)"
  by (simp_all add: new_task_def with_lds_def Let_def task_key_def)

lemma edited_task_fields [simp]:
  "title (edited_task dg env t) = title t"
  "status (edited_task dg env t) = status t"
  "lds_id (lds (edited_task dg env t)) = lds_id (lds t)"
  "updated (lds (edited_task dg env t)) = date1 env"
  "task_key (edited_task dg env t) = lds_id (lds t)"
  by (simp_all add: edited_task_def Let_def task_key_def)

lemma completed_task_fields [simp]:
  "title (completed_task dg env t) = title t"
  "status (completed_task dg env t) = Completed"
  "completed_at (completed_task dg env t) = Some (date1 env)"
  "micro_steps (completed_task dg env t) = map (\<lambda>s. s\<lparr>completed := True\<rparr>) (micro_steps t)"
  "lds_id (lds (completed_task dg env t)) = lds_id (lds t)"
  "updated (lds (completed_task dg env t)) = date2 env"
  "task_key (completed_task dg env t) = lds_id (lds t)"
  by (simp_all add: completed_task_def Let_def task_key_def)

lemma deferred_task_fields [simp]:
  "title (deferred_task dg env t) = title t"
  "status (deferred_task dg env t) = Deferred"
  "completed_at (deferred_task dg env t) = completed_at t"
  "micro_steps (deferred_task dg env t) = micro_steps t"
  "lds_id (lds (deferred_task dg env t)) = lds_id (lds t)"
  "updated (lds (deferred_task dg env t)) = date1 env"
  "task_key (deferred_task dg env t) = lds_id (lds t)"
  by (simp_all add: deferred_task_def Let_def task_key_def)

section \<open>Successful and failing calls\<close>

lemma createTask_ok:
  "audit_fresh env w \<Longrightarrow>
   createTask dg env taskData w =
     (Inr (new_task dg env taskData),
      logged (createAuditEntry env Task_created ET_task
                (generateId ''task'' (gen_ts env) (gen_rand env)) [(''title'', JStr (title taskData))])
        (task_upserted (new_task dg env taskData) w))"
  by (simp add: createTask_eq logAudit_ok)

lemma createTask_InrD:
  assumes "createTask dg env taskData w = (Inr task, w')"
  shows "audit_fresh env w \<and> task = new_task dg env taskData \<and>
     w' = logged (createAuditEntry env Task_created ET_task
                (generateId ''task'' (gen_ts env) (gen_rand env)) [(''title'', JStr (title taskData))])
        (task_upserted (new_task dg env taskData) w)"
proof (cases "audit_fresh env w")
  case True
  then show ?thesis using assms by (auto simp: createTask_ok)
next
  case False
  then show ?thesis using assms by (simp add: createTask_eq logAudit_fail)
qed

lemma updateTask_ok:
  "audit_fresh env w \<Longrightarrow>
   updateTask dg env task w =
     (Inr (), logged (createAuditEntry env Task_edited ET_task (lds_id (lds task))
                        [(''title'', JStr (title task))])
                (task_upserted (edited_task dg env task) w))"
  by (simp add: updateTask_eq logAudit_ok)

lemma completeTask_InrD:
  assumes "find (\<lambda>t. lds_id (lds t) = taskId) (tasks snapshot) = Some task"
    and "completeTask dg env snapshot taskId w = (Inr u, w')"
  shows "audit_fresh env w \<and>
     w' = logged (createAuditEntry env Task_completed ET_task taskId [(''title'', JStr (title task))])
            (task_upserted (completed_task dg env task) w)"
  using assms(2) logAudit_InrD [of env Task_completed ET_task taskId _ "task_upserted (completed_task dg env task) w" u w']
  by (simp add: completeTask_eq [OF assms(1)])

lemma completeTask_ok:
  assumes "find (\<lambda>t. lds_id (lds t) = taskId) (tasks snapshot) = Some task"
    and "audit_fresh env w"
  shows "completeTask dg env snapshot taskId w
     = (Inr (), logged (createAuditEntry env Task_completed ET_task taskId [(''title'', JStr (title task))])
            (task_upserted (completed_task dg env task) w))"
  using assms(2) by (simp add: completeTask_eq [OF assms(1)] logAudit_ok)

lemma deferTask_ok:
  assumes "find (\<lambda>t. lds_id (lds t) = taskId) (tasks snapshot) = Some task"
    and "audit_fresh env w"
  shows "deferTask dg env snapshot taskId w
     = (Inr (), logged (createAuditEntry env Task_deferred ET_task taskId [(''title'', JStr (title task))])
            (task_upserted (deferred_task dg env task) w))"
  using assms(2) by (simp add: deferTask_eq [OF assms(1)] logAudit_ok)

lemma removeTask_ok:
  "audit_fresh env w \<Longrightarrow>
   removeTask env snapshot taskId w =
     (Inr (), logged (createAuditEntry env Task_deleted ET_task taskId
               [(''title'', JStr (title_or_unknown
                   (find (\<lambda>t. lds_id (lds t) = taskId) (tasks snapshot))))])
                (task_removed snapshot taskId w))"
  by (simp add: removeTask_eq logAudit_ok)

lemma removeTask_InrD:
  assumes "removeTask env snapshot taskId w = (Inr u, w')"
  shows "audit_fresh env w \<and>
     w' = logged (createAuditEntry env Task_deleted ET_task taskId
               [(''title'', JStr (title_or_unknown
                   (find (\<lambda>t. lds_id (lds t) = taskId) (tasks snapshot))))])
            (task_removed snapshot taskId w)"
  using assms logAudit_InrD [of env Task_deleted ET_task taskId _ "task_removed snapshot taskId w" u w']
  by (simp add: removeTask_eq)

lemma addEdge_ok:
  "audit_fresh env w \<Longrightarrow>
   addEdge env src tgt ty w =
     (Inr (), logged (createAuditEntry env Edge_created ET_edge
                (generateId ''edge'' (gen_ts env) (gen_rand env))
                [(''source'', JStr src), (''target'', JStr tgt), (''type'', JStr (edge_type_str ty))])
        (edge_upserted (new_edge env src tgt ty) w))"
  by (simp add: addEdge_eq logAudit_ok)

section \<open>The content hash\<close>

lemma new_task_hash:
  "content_hash (lds (new_task dg env d)) = task_hash dg (clear_hash (new_task dg env d))"
  by (simp add: new_task_def clear_hash_def Let_def with_lds_def)

lemma sort_lds_keys:
  "sort [''v'', ''type'', ''id'', ''created'', ''updated'', ''content_hash'']
     = [''content_hash'', ''created'', ''id'', ''type'', ''updated'', ''v'']"
  by code_simp

lemma sort_task_keys:
  "sort [''title'', ''description'', ''status'', ''energy'', ''importance'', ''micro_steps'',
         ''due_date'', ''scheduled_date'', ''tags'', ''recurring'', ''completed_at'',
         ''created_at'', ''updated_at'', ''$lds'']
     = [''$lds'', ''completed_at'', ''created_at'', ''description'', ''due_date'', ''energy'',
        ''importance'', ''micro_steps'', ''recurring'', ''scheduled_date'', ''status'', ''tags'',
        ''title'', ''updated_at'']"
  by code_simp

lemma canonicalize_lds:
  "canonicalize js_number (lds_json m)
     = ''{'' @ json_quote ''content_hash'' @ '':'' @ json_quote (content_hash m) @ '','' @
       join '','' [json_quote ''created'' @ '':'' @ json_quote (created m),
                  json_quote ''id'' @ '':'' @ json_quote (lds_id m),
                  json_quote ''type'' @ '':'' @ json_quote (lds_type m),
                  json_quote ''updated'' @ '':'' @ json_quote (updated m),
                  json_quote ''v'' @ '':'' @ json_quote (lds_v m)] @ ''}''"
  by (simp add: lds_json_def sort_lds_keys)

lemma canonicalize_task:
  "canonicalize js_number (task_json t)
     = ''{'' @ join '','' [
         json_quote ''$lds'' @ '':'' @ canonicalize js_number (lds_json (lds t)),
         json_quote ''completed_at'' @ '':'' @ canonicalize js_number (nullable (completed_at t)),
         json_quote ''created_at'' @ '':'' @ json_quote (created_at t),
         json_quote ''description'' @ '':'' @ json_quote (description t),
         json_quote ''due_date'' @ '':'' @ canonicalize js_number (nullable (due_date t)),
         json_quote ''energy'' @ '':'' @ json_quote (energy_str (energy t)),
         json_quote ''importance'' @ '':'' @ json_quote (importance_str (importance t)),
         json_quote ''micro_steps'' @ '':'' @
           canonicalize js_number (JArr (map step_json (micro_steps t))),
         json_quote ''recurring'' @ '':'' @
           canonicalize js_number (case recurring t of None \<Rightarrow> JNull | Some r \<Rightarrow> recurring_json r),
         json_quote ''scheduled_date'' @ '':'' @ canonicalize js_number (nullable (scheduled_date t)),
         json_quote ''status'' @ '':'' @ json_quote (status_str (status t)),
         json_quote ''tags'' @ '':'' @ canonicalize js_number (JArr (map JStr (tags t))),
         json_quote ''title'' @ '':'' @ json_quote (title t),
         json_quote ''updated_at'' @ '':'' @ json_quote (updated_at t)] @ ''}''"
  unfolding task_json_def
  by (simp add: sort_task_keys del: canonicalize.simps(5) join.simps)

lemma canonical_hash_cancel:
  assumes "canonicalize js_number (task_json t) = canonicalize js_number (task_json (clear_hash t))"
  shows "json_quote (content_hash (lds t)) = json_quote []"
  using assms
  by (simp add: canonicalize_task canonicalize_lds clear_hash_def del: canonicalize.simps)

lemma json_escape_nonempty: "json_escape c \<noteq> []"
  by (simp add: json_escape_def Let_def)

lemma json_quote_empty: "json_quote h = json_quote [] \<Longrightarrow> h = []"
  by (cases h) (simp_all add: json_quote_def json_escape_nonempty)

lemma hex_digit_inj:
  assumes "a < 16" and "b < 16" and "hex_digit a = hex_digit b"
  shows "a = b"
proof -
  have "of_char (hex_digit a) = (if a < 10 then 48 + a else 87 + a)"
    using assms(1) by (simp add: hex_digit_def)
  moreover have "of_char (hex_digit b) = (if b < 10 then 48 + b else 87 + b)"
    using assms(2) by (simp add: hex_digit_def)
  ultimately have "(if a < 10 then 48 + a else 87 + a) = (if b < 10 then 48 + b else 87 + b)"
    using assms(3) by (metis (no_types))
  then show ?thesis by (auto split: if_splits)
qed

lemma hex2_inj: "hex2 a = hex2 b \<Longrightarrow> a = b"
proof -
  assume h: "hex2 a = hex2 b"
  have la: "unat a div 16 < 16" "unat a mod 16 < 16"
    using unsigned_less [of a, where 'a = nat] by (simp_all add: less_mult_imp_div_less)
  have lb: "unat b div 16 < 16" "unat b mod 16 < 16"
    using unsigned_less [of b, where 'a = nat] by (simp_all add: less_mult_imp_div_less)
  have "hex_digit (unat a div 16) = hex_digit (unat b div 16)"
    and "hex_digit (unat a mod 16) = hex_digit (unat b mod 16)"
    using h by (simp_all add: hex2_def)
  then have "unat a div 16 = unat b div 16" "unat a mod 16 = unat b mod 16"
    using la lb hex_digit_inj by blast+
  then have "unat a = unat b" by (metis div_mult_mod_eq)
  then show "a = b" by (simp add: word_unat_eq_iff)
qed

lemma concat_hex2_inj: "concat (map hex2 xs) = concat (map hex2 ys) \<Longrightarrow> xs = ys"
proof (induction xs arbitrary: ys)
  case Nil
  then show ?case by (cases ys) (simp_all add: hex2_def)
next
  case (Cons x xs)
  show ?case
  proof (cases ys)
    case Nil
    then show ?thesis using Cons.prems by (simp add: hex2_def)
  next
    case (Cons y ys')
    have "hex2 x @ concat (map hex2 xs) = hex2 y @ concat (map hex2 ys')"
      using Cons.prems Cons by simp
    moreover have "length (hex2 x) = length (hex2 y)" by (simp add: hex2_def)
    ultimately have "hex2 x = hex2 y" "concat (map hex2 xs) = concat (map hex2 ys')"
      by simp_all
    then show ?thesis using Cons Cons.IH hex2_inj by blast
  qed
qed

lemma utf8_nonempty: "utf8 c \<noteq> []"
  by (simp add: utf8_def Let_def)

lemma utf8_append_inj:
  assumes "utf8 c @ xs = utf8 d @ ys"
  shows "c = d \<and> xs = ys"
proof -
  let ?n = "of_char c :: nat" and ?m = "of_char d :: nat"
  consider "?n < 128" "?m < 128" | "?n < 128" "\<not> ?m < 128" | "\<not> ?n < 128" "?m < 128"
    | "\<not> ?n < 128" "\<not> ?m < 128"
    by blast
  then show ?thesis
  proof cases
    case 1
    then have "?n = ?m \<and> xs = ys" using assms by (simp add: utf8_def Let_def)
    then show ?thesis by simp
  next
    case 2
    then show ?thesis using assms by (simp add: utf8_def Let_def)
  next
    case 3
    then show ?thesis using assms by (simp add: utf8_def Let_def)
  next
    case 4
    then have "?n div 64 = ?m div 64" "?n mod 64 = ?m mod 64" "xs = ys"
      using assms by (simp_all add: utf8_def Let_def)
    then have "?n = ?m \<and> xs = ys" by (metis div_mult_mod_eq)
    then show ?thesis by simp
  qed
qed

lemma concat_utf8_inj: "concat (map utf8 s) = concat (map utf8 s') \<Longrightarrow> s = s'"
proof (induction s arbitrary: s')
  case Nil
  then show ?case by (cases s') (simp_all add: utf8_nonempty)
next
  case (Cons c s)
  show ?case
  proof (cases s')
    case Nil
    then show ?thesis using Cons.prems by (simp add: utf8_nonempty)
  next
    case (Cons d t)
    have "utf8 c @ concat (map utf8 s) = utf8 d @ concat (map utf8 t)"
      using Cons.prems Cons by simp
    then have "c = d" "concat (map utf8 s) = concat (map utf8 t)"
      using utf8_append_inj by blast+
    then show ?thesis using Cons Cons.IH by blast
  qed
qed

lemma utf8_bytes: "x \<in> set (concat (map utf8 s)) \<Longrightarrow> x < 256"
proof -
  have "x \<in> set (utf8 c) \<Longrightarrow> x < 256" for c
  proof -
    have d: "(of_char c :: nat) div 64 < 4"
      by (rule less_mult_imp_div_less) simp
    assume "x \<in> set (utf8 c)"
    then show "x < 256"
      using d by (auto simp: utf8_def Let_def split: if_splits)
  qed
  then show "x \<in> set (concat (map utf8 s)) \<Longrightarrow> x < 256" by auto
qed

lemma bytes_of_nat_inj:
  assumes "\<forall>x\<in>set xs. x < 256" and "\<forall>y\<in>set ys. y < 256"
    and "map (of_nat :: nat \<Rightarrow> byte) xs = map of_nat ys"
  shows "xs = ys"
proof -
  have "map unat (map (of_nat :: nat \<Rightarrow> byte) xs) = xs"
    using assms(1) by (induction xs) (simp_all add: unat_of_nat)
  moreover have "map unat (map (of_nat :: nat \<Rightarrow> byte) ys) = ys"
    using assms(2) by (induction ys) (simp_all add: unat_of_nat)
  ultimately show ?thesis using assms(3) by metis
qed

lemma encode_inj: "encode s = encode s' \<Longrightarrow> s = s'"
  unfolding encode_def
  using bytes_of_nat_inj [of "concat (map utf8 s)" "concat (map utf8 s')"] utf8_bytes
    concat_utf8_inj
  by blast

lemma task_hash_inj:
  assumes "inj dg" and "task_hash dg t = task_hash dg t'"
  shows "canonicalize js_number (task_json t) = canonicalize js_number (task_json t')"
proof -
  have "dg (encode (canonicalize js_number (task_json t)))
      = dg (encode (canonicalize js_number (task_json t')))"
    using assms(2) by (simp add: task_hash_def computeHash_def Let_def concat_hex2_inj)
  then show ?thesis using assms(1) by (simp add: inj_eq encode_inj)
qed

lemma stale_hash_mismatch:
  assumes "inj dg" and "content_hash (lds t) \<noteq> []"
  shows "task_hash dg t \<noteq> task_hash dg (clear_hash t)"
  using assms task_hash_inj canonical_hash_cancel json_quote_empty by blast

lemma inj_plain_digest: "inj plain_digest"
  by (simp add: inj_def plain_digest_def)

lemma task_hash_plain_nonempty: "task_hash plain_digest t \<noteq> []"
proof -
  obtain r where "canonicalize js_number (task_json t) = CHR ''{'' # r"
    by (simp add: canonicalize_task del: canonicalize.simps join.simps)
  then show ?thesis
    by (simp add: task_hash_def computeHash_def plain_digest_def encode_def utf8_def hex2_def)
qed

lemma edited_task_hash:
  "content_hash (lds (edited_task dg env t)) = task_hash dg (t\<lparr>lds := (lds t)\<lparr>updated := date1 env\<rparr>\<rparr>)"
  "clear_hash (edited_task dg env t) = clear_hash (t\<lparr>lds := (lds t)\<lparr>updated := date1 env\<rparr>\<rparr>)"
  by (simp_all add: edited_task_def clear_hash_def Let_def)

lemma completed_task_hash:
  "content_hash (lds (completed_task dg env t))
     = task_hash dg (t\<lparr>status := Completed, completed_at := Some (date1 env),
            micro_steps := map (\<lambda>s. s\<lparr>completed := True\<rparr>) (micro_steps t),
            lds := (lds t)\<lparr>updated := date2 env\<rparr>\<rparr>)"
  "clear_hash (completed_task dg env t)
     = clear_hash (t\<lparr>status := Completed, completed_at := Some (date1 env),
            micro_steps := map (\<lambda>s. s\<lparr>completed := True\<rparr>) (micro_steps t),
            lds := (lds t)\<lparr>updated := date2 env\<rparr>\<rparr>)"
  by (simp_all add: completed_task_def clear_hash_def Let_def)

lemma deferred_task_hash:
  "content_hash (lds (deferred_task dg env t))
     = task_hash dg (t\<lparr>status := Deferred, lds := (lds t)\<lparr>updated := date1 env\<rparr>\<rparr>)"
  "clear_hash (deferred_task dg env t)
     = clear_hash (t\<lparr>status := Deferred, lds := (lds t)\<lparr>updated := date1 env\<rparr>\<rparr>)"
  by (simp_all add: deferred_task_def clear_hash_def Let_def)

text \<open>
  With a digest without collisions, each of the three update paths stores a hash that is
  not the hash of the entity with its hash field cleared, as soon as the entity came in
  with a hash.
\<close>

lemma update_paths_keep_stale_hash:
  assumes "inj dg" and "content_hash (lds t) \<noteq> []"
  shows "content_hash (lds (edited_task dg env t)) \<noteq> task_hash dg (clear_hash (edited_task dg env t))"
    and "content_hash (lds (completed_task dg env t)) \<noteq> task_hash dg (clear_hash (completed_task dg env t))"
    and "content_hash (lds (deferred_task dg env t)) \<noteq> task_hash dg (clear_hash (deferred_task dg env t))"
  unfolding edited_task_hash completed_task_hash deferred_task_hash
  using assms by (simp_all add: stale_hash_mismatch)

section \<open>What every operation keeps\<close>

text \<open>The stores stay well formed, whatever the operation does and however it ends.\<close>

lemma db_wf_logged:
  "db_wf (db w) \<Longrightarrow> db_wf (db (logged e w))"
  by (simp add: db_wf_def os_put_wf)

lemma db_wf_logAudit: "db_wf (db w) \<Longrightarrow> db_wf (db (snd (logAudit env act et eid dets w)))"
  by (cases "audit_fresh env w") (simp_all add: logAudit_ok logAudit_fail db_wf_logged)

lemma db_wf_task_upserted: "db_wf (db w) \<Longrightarrow> db_wf (db (task_upserted t w))"
  by (simp add: db_wf_def os_put_wf)

lemma db_wf_edge_upserted: "db_wf (db w) \<Longrightarrow> db_wf (db (edge_upserted e w))"
  by (simp add: db_wf_def os_put_wf)

lemma db_wf_edge_removed: "db_wf (db w) \<Longrightarrow> db_wf (db (edge_removed i w))"
  by (simp add: db_wf_def os_delete_wf)

lemma db_wf_task_removed: "db_wf (db w) \<Longrightarrow> db_wf (db (task_removed snapshot i w))"
  by (simp add: db_wf_def os_delete_wf os_wf_filter)

lemma db_wf_importData: "db_wf (db w) \<Longrightarrow> db_wf (db (snd (importData dp env parsed w)))"
proof (cases parsed)
  case None
  then show "db_wf (db w) \<Longrightarrow> ?thesis" by (simp add: importData_def)
next
  case (Some data)
  assume wf: "db_wf (db w)"
  obtain r d1 where k: "importKernel data (db w) = (r, d1)" by (cases "importKernel data (db w)")
  have d1: "db_wf d1" using importKernel_wf [OF wf, of data] k by simp
  show ?thesis
  proof (cases r)
    case (Inl e)
    then show ?thesis using d1 by (simp add: Some importData_eq k)
  next
    case (Inr u)
    have "db_wf (db (reloaded dp d1 w))" using d1 by simp
    then show ?thesis
      using db_wf_logAudit [of "reloaded dp d1 w"] by (simp add: Some importData_eq k Inr)
  qed
qed

lemma db_wf_run:
  assumes "db_wf (db w)"
  shows "db_wf (db (snd (run dg dp env snapshot op w)))"
proof (cases op)
  case (CreateTask taskData)
  then show ?thesis
    using assms by (simp add: snd_outcome createTask_eq snd_relabel db_wf_logAudit db_wf_task_upserted)
next
  case (UpdateTask task)
  then show ?thesis using assms by (simp add: updateTask_eq db_wf_logAudit db_wf_task_upserted)
next
  case (CompleteTask taskId)
  then show ?thesis
    using assms
    by (cases "find (\<lambda>t. lds_id (lds t) = taskId) (tasks snapshot)")
      (simp_all add: completeTask_eq completeTask_none db_wf_logAudit db_wf_task_upserted)
next
  case (DeferTask taskId)
  then show ?thesis
    using assms
    by (cases "find (\<lambda>t. lds_id (lds t) = taskId) (tasks snapshot)")
      (simp_all add: deferTask_eq deferTask_none db_wf_logAudit db_wf_task_upserted)
next
  case (RemoveTask taskId)
  then show ?thesis using assms by (simp add: removeTask_eq db_wf_logAudit db_wf_task_removed)
next
  case (AddEdge src tgt ty)
  then show ?thesis using assms by (simp add: addEdge_eq db_wf_logAudit db_wf_edge_upserted)
next
  case (RemoveEdge edgeId)
  then show ?thesis using assms by (simp add: removeEdge_eq db_wf_logAudit db_wf_edge_removed)
next
  case (UpdatePreferences partial)
  then show ?thesis
    using assms by (simp add: updatePreferences_def putPreferences_def Let_def db_wf_def)
next
  case (SetView view)
  then show ?thesis using assms by simp
next
  case (SelectTask i)
  then show ?thesis using assms by simp
next
  case (EditTask i)
  then show ?thesis using assms by simp
next
  case (ShowEditor b)
  then show ?thesis using assms by simp
next
  case (LogAudit act entityType entityId dets)
  then show ?thesis using assms by (simp add: db_wf_logAudit)
next
  case ExportAllData
  then show ?thesis using assms by (simp add: snd_outcome exportAllData_throws)
next
  case (ImportData parsed)
  then show ?thesis using assms by (simp add: db_wf_importData)
qed

lemma reachable_db_wf: "reachable dg dp w \<Longrightarrow> db_wf (db w)"
  by (induction rule: reachable.induct) (simp_all add: loaded_def db_wf_run)

text \<open>Every operation leaves the audit log as it was or adds one entry to it.\<close>

lemma logAudit_audit:
  assumes "audit_same w w1"
  shows "(fst (logAudit env act et eid dets w1) = Inl ConstraintError
            \<and> audit_same w (snd (logAudit env act et eid dets w1)))
       \<or> (fst (logAudit env act et eid dets w1) = Inr ()
            \<and> audit_plus (createAuditEntry env act et eid dets) w (snd (logAudit env act et eid dets w1)))"
proof (cases "audit_fresh env w1")
  case True
  then show ?thesis
    using assms by (simp add: logAudit_ok audit_same_def audit_plus_def audit_mset_logged)
next
  case False
  then show ?thesis using assms by (simp add: logAudit_fail)
qed

lemma audit_same_refl: "audit_same w w"
  by (simp add: audit_same_def)

lemma audit_same_task_upserted: "audit_same w (task_upserted t w)"
  by (simp add: audit_same_def)

lemma audit_same_edge_upserted: "audit_same w (edge_upserted e w)"
  by (simp add: audit_same_def)

lemma audit_same_edge_removed: "audit_same w (edge_removed i w)"
  by (simp add: audit_same_def)

lemma audit_same_task_removed: "audit_same w (task_removed snapshot i w)"
  by (simp add: audit_same_def)

lemma audit_same_import_failed:
  "audit_same w \<lparr>db = snd (importKernel data (db w)), state = state w\<rparr>"
  by (simp add: audit_same_def importKernel_audit)

lemma audit_same_reloaded:
  "audit_same w (reloaded dp (snd (importKernel data (db w))) w)"
  by (simp add: audit_same_def importKernel_audit audit_in_step_def)

lemma importData_audit:
  "(audit_same w (snd (importData dp env parsed w)) \<and> fst (importData dp env parsed w) \<noteq> Inr ())
   \<or> (\<exists>entry. audit_plus entry w (snd (importData dp env parsed w)))"
proof (cases parsed)
  case None
  then show ?thesis by (simp add: importData_def audit_same_refl)
next
  case (Some data)
  obtain r d1 where k: "importKernel data (db w) = (r, d1)" by (cases "importKernel data (db w)")
  then have d1: "d1 = snd (importKernel data (db w))" by simp
  show ?thesis
  proof (cases r)
    case (Inl e)
    then show ?thesis
      using audit_same_import_failed [of w data] by (simp add: Some importData_eq k d1 [symmetric])
  next
    case (Inr u)
    show ?thesis
      using logAudit_audit [OF audit_same_reloaded [of w dp data], of env Kernel_imported ET_kernel
          "''full_import''" "[]"]
      by (auto simp: Some importData_eq k Inr d1 [symmetric])
  qed
qed

lemma run_audit:
  "(audit_same w (snd (run dg dp env snapshot op w))
      \<and> (mutating snapshot op \<longrightarrow> fst (run dg dp env snapshot op w) \<noteq> Inr ()))
   \<or> (\<exists>entry. audit_plus entry w (snd (run dg dp env snapshot op w)))"
proof (cases op)
  case (CreateTask taskData)
  show ?thesis
    using logAudit_audit [OF audit_same_task_upserted [of w "new_task dg env taskData"],
        of env Task_created ET_task
        "generateId ''task'' (gen_ts env) (gen_rand env)" "[(''title'', JStr (title taskData))]"]
    unfolding CreateTask run.simps snd_outcome fst_outcome createTask_eq snd_relabel fst_relabel
    by auto
next
  case (UpdateTask task)
  show ?thesis
    using logAudit_audit [OF audit_same_task_upserted [of w "edited_task dg env task"],
        of env Task_edited ET_task "lds_id (lds task)" "[(''title'', JStr (title task))]"]
    unfolding UpdateTask run.simps updateTask_eq by auto
next
  case (CompleteTask taskId)
  show ?thesis
  proof (cases "find (\<lambda>t. lds_id (lds t) = taskId) (tasks snapshot)")
    case None
    then show ?thesis by (simp add: CompleteTask completeTask_none audit_same_refl)
  next
    case (Some task)
    show ?thesis
      using logAudit_audit [OF audit_same_task_upserted [of w "completed_task dg env task"],
          of env Task_completed ET_task taskId "[(''title'', JStr (title task))]"]
      unfolding CompleteTask run.simps completeTask_eq [OF Some] by auto
  qed
next
  case (DeferTask taskId)
  show ?thesis
  proof (cases "find (\<lambda>t. lds_id (lds t) = taskId) (tasks snapshot)")
    case None
    then show ?thesis by (simp add: DeferTask deferTask_none audit_same_refl)
  next
    case (Some task)
    show ?thesis
      using logAudit_audit [OF audit_same_task_upserted [of w "deferred_task dg env task"],
          of env Task_deferred ET_task taskId "[(''title'', JStr (title task))]"]
      unfolding DeferTask run.simps deferTask_eq [OF Some] by auto
  qed
next
  case (RemoveTask taskId)
  show ?thesis
    using logAudit_audit [OF audit_same_task_removed [of w snapshot taskId],
        of env Task_deleted ET_task taskId
        "[(''title'', JStr (title_or_unknown
            (find (\<lambda>t. lds_id (lds t) = taskId) (tasks snapshot))))]"]
    unfolding RemoveTask run.simps removeTask_eq by auto
next
  case (AddEdge src tgt ty)
  show ?thesis
    using logAudit_audit [OF audit_same_edge_upserted [of w "new_edge env src tgt ty"],
        of env Edge_created ET_edge "generateId ''edge'' (gen_ts env) (gen_rand env)"
        "[(''source'', JStr src), (''target'', JStr tgt), (''type'', JStr (edge_type_str ty))]"]
    unfolding AddEdge run.simps addEdge_eq by auto
next
  case (RemoveEdge edgeId)
  show ?thesis
    using logAudit_audit [OF audit_same_edge_removed [of w edgeId], of env Edge_deleted ET_edge edgeId "[]"]
    unfolding RemoveEdge run.simps removeEdge_eq by auto
next
  case (UpdatePreferences partial)
  then show ?thesis
    by (simp add: updatePreferences_def putPreferences_def Let_def audit_same_def)
next
  case (SetView view)
  then show ?thesis by (simp add: audit_same_def)
next
  case (SelectTask i)
  then show ?thesis by (simp add: audit_same_def)
next
  case (EditTask i)
  then show ?thesis by (simp add: audit_same_def)
next
  case (ShowEditor b)
  then show ?thesis by (simp add: audit_same_def)
next
  case (LogAudit act entityType entityId dets)
  show ?thesis
    using logAudit_audit [OF audit_same_refl [of w], of env act entityType entityId dets]
    unfolding LogAudit run.simps by auto
next
  case ExportAllData
  then show ?thesis
    by (simp add: snd_outcome fst_outcome exportAllData_throws audit_same_refl)
next
  case (ImportData parsed)
  show ?thesis
    using importData_audit [of w dp env parsed] unfolding ImportData run.simps by auto
qed

lemma audit_in_step_run:
  assumes "audit_in_step w"
  shows "audit_in_step (snd (run dg dp env snapshot op w))"
  using run_audit [of w dg dp env snapshot op] assms
  by (auto simp: audit_same_def audit_plus_def audit_in_step_def)

lemma audit_in_step_run_all: "audit_in_step w \<Longrightarrow> audit_in_step (run_all dg dp steps w)"
  by (induction steps arbitrary: w) (auto simp: audit_in_step_run)

lemma audit_in_step_loaded: "audit_in_step (loaded dp d)"
  by (simp add: audit_in_step_def loaded_def read_all_def getAllAuditEntries_def)

text \<open>In every world the program reaches, the mirror's log is in step with the store.\<close>

lemma reachable_audit_in_step: "reachable dg dp w \<Longrightarrow> audit_in_step w"
  by (induction rule: reachable.induct) (simp_all add: audit_in_step_loaded audit_in_step_run)

lemma run_store_audit_grows:
  "mset (audit_store (db w)) \<subseteq># mset (audit_store (db (snd (run dg dp env snapshot op w))))"
  using run_audit [of w dg dp env snapshot op]
  by (auto simp: audit_same_def audit_plus_def)

lemma run_all_store_audit_grows:
  "mset (audit_store (db w)) \<subseteq># mset (audit_store (db (run_all dg dp steps w)))"
proof (induction steps arbitrary: w)
  case Nil
  then show ?case by simp
next
  case (Cons step steps)
  obtain env snapshot op where step: "step = (env, snapshot, op)" by (cases step)
  show ?case
    using run_store_audit_grows [of w dg dp env snapshot op]
      Cons.IH [of "snd (run dg dp env snapshot op w)"]
    by (auto simp: step intro: subset_mset.order_trans)
qed

lemma run_mirror_audit_grows:
  assumes "audit_in_step w"
  shows "mset (auditLog (state w)) \<subseteq># mset (auditLog (state (snd (run dg dp env snapshot op w))))"
  using run_audit [of w dg dp env snapshot op] assms
  by (auto simp: audit_same_def audit_plus_def)

lemma run_all_mirror_audit_grows:
  assumes "audit_in_step w"
  shows "mset (auditLog (state w)) \<subseteq># mset (auditLog (state (run_all dg dp steps w)))"
  using assms
proof (induction steps arbitrary: w)
  case Nil
  then show ?case by simp
next
  case (Cons step steps)
  obtain env snapshot op where step: "step = (env, snapshot, op)" by (cases step)
  have s: "audit_in_step (snd (run dg dp env snapshot op w))"
    using Cons.prems by (rule audit_in_step_run)
  show ?case
    using run_mirror_audit_grows [OF Cons.prems, of dg dp env snapshot op] Cons.IH [OF s]
    by (auto simp: step intro: subset_mset.order_trans)
qed

section \<open>The sample worlds\<close>

lemma world0_simps [simp]:
  "tasks_store (db world0) = []"
  "edges_store (db world0) = []"
  "routines_store (db world0) = []"
  "audit_store (db world0) = []"
  "preferences_store (db world0) = Some sample_prefs"
  "tasks (state world0) = []"
  "edges (state world0) = []"
  "routines (state world0) = []"
  "auditLog (state world0) = []"
  "preferences (state world0) = sample_prefs"
  by (simp_all add: world0_def loaded_def empty_db_def read_all_def initialState_def
      getAllTasks_def getAllEdges_def getAllRoutines_def getAllAuditEntries_def getPreferences_def)

lemma audit_fresh_world0 [simp]: "audit_fresh env world0"
  by (simp add: audit_fresh_def)

lemma reachable_world0: "reachable dg sample_prefs world0"
  unfolding world0_def by (rule reachable.start) (simp add: db_wf_def empty_db_def os_wf_def)

lemma key_permuted_json_ba_ab: "key_permuted json_ba json_ab"
proof -
  have inner: "key_permuted (JObj [(''y'', JNull), (''x'', JBool True)])
                  (JObj [(''x'', JBool True), (''y'', (JNull :: jsvalue))])"
    by (rule kp_obj) (simp_all add: kp_same)
  show ?thesis
    unfolding json_ba_def json_ab_def
    by (rule kp_obj) (simp_all add: inner kp_same)
qed

lemma world1_eq:
  "world1 = logged (createAuditEntry env1 Task_created ET_task
                (generateId ''task'' (gen_ts env1) (gen_rand env1)) [(''title'', JStr (title milk))])
        (task_upserted (new_task plain_digest env1 milk) world0)"
  by (simp add: world1_def createTask_ok)

lemma world1_simps [simp]:
  "tasks_store (db world1) = [new_task plain_digest env1 milk]"
  "edges_store (db world1) = []"
  "routines_store (db world1) = []"
  "preferences_store (db world1) = Some sample_prefs"
  "audit_store (db world1) = [createAuditEntry env1 Task_created ET_task
                (generateId ''task'' (gen_ts env1) (gen_rand env1)) [(''title'', JStr (title milk))]]"
  "tasks (state world1) = [new_task plain_digest env1 milk]"
  "edges (state world1) = []"
  "routines (state world1) = []"
  "preferences (state world1) = sample_prefs"
  "auditLog (state world1) = [createAuditEntry env1 Task_created ET_task
                (generateId ''task'' (gen_ts env1) (gen_rand env1)) [(''title'', JStr (title milk))]]"
  by (simp_all add: world1_eq upsert_def)

lemma reachable_world1: "reachable plain_digest sample_prefs world1"
proof -
  have "reachable plain_digest sample_prefs
          (snd (run plain_digest sample_prefs env1 (state world0) (CreateTask milk) world0))"
    by (rule reachable.step) (rule reachable_world0)
  then show ?thesis by (simp add: snd_outcome world1_def)
qed

lemma audit_fresh_env2_world1 [simp]: "audit_fresh env2 world1"
  by (simp add: audit_fresh_def createAuditEntry_def generateId_def env1_def env2_def)

lemma sample_task_id: "lds_id (lds (new_task plain_digest env1 milk)) = ''task_mk1_aaaaaa''"
  by (simp add: generateId_def env1_def)

lemma find_sample_task:
  "find (\<lambda>t. lds_id (lds t) = ''task_mk1_aaaaaa'') (tasks (state world1))
     = Some (new_task plain_digest env1 milk)"
  by (simp add: generateId_def env1_def)

lemma sample_key_order: "''task_mk1_aaaaaa'' < ''task_mk2_cccccc''"
  "''audit_mk1_bbbbbb'' < ''audit_mk2_dddddd''"
  "''audit_mk2_dddddd'' < ''audit_mk3_ffffff''"
  "''audit_mk1_bbbbbb'' < ''audit_mk3_ffffff''"
  by code_simp+

lemma world2_eq:
  "world2 = logged (createAuditEntry env2 Task_created ET_task
                (generateId ''task'' (gen_ts env2) (gen_rand env2)) [(''title'', JStr (title errand))])
        (task_upserted (new_task plain_digest env2 errand) world1)"
  by (simp add: world2_def createTask_ok)

lemma world2_simps [simp]:
  "tasks_store (db world2) = [new_task plain_digest env1 milk, new_task plain_digest env2 errand]"
  "edges_store (db world2) = []"
  "routines_store (db world2) = []"
  "preferences_store (db world2) = Some sample_prefs"
  "audit_store (db world2)
     = [createAuditEntry env1 Task_created ET_task ''task_mk1_aaaaaa'' [(''title'', JStr ''Buy milk'')],
        createAuditEntry env2 Task_created ET_task ''task_mk2_cccccc'' [(''title'', JStr ''Post letter'')]]"
  "tasks (state world2) = [new_task plain_digest env1 milk, new_task plain_digest env2 errand]"
  "edges (state world2) = []"
  "routines (state world2) = []"
  "preferences (state world2) = sample_prefs"
  using sample_key_order
  by (simp_all add: world2_eq upsert_def generateId_def env1_def env2_def createAuditEntry_def
      milk_def errand_def)

lemma audit_fresh_env3_world2 [simp]: "audit_fresh env3 world2"
  by (simp add: audit_fresh_def generateId_def env1_def env2_def env3_def)

lemma world3_eq:
  "world3 = logged (createAuditEntry env3 Edge_created ET_edge
                (generateId ''edge'' (gen_ts env3) (gen_rand env3))
                [(''source'', JStr ''task_mk1_aaaaaa''), (''target'', JStr ''task_mk2_cccccc''),
                 (''type'', JStr (edge_type_str Blocks))])
        (edge_upserted (new_edge env3 ''task_mk1_aaaaaa'' ''task_mk2_cccccc'' Blocks) world2)"
  by (simp add: world3_def addEdge_ok)

lemma world3_simps [simp]:
  "tasks_store (db world3) = [new_task plain_digest env1 milk, new_task plain_digest env2 errand]"
  "edges_store (db world3) = [new_edge env3 ''task_mk1_aaaaaa'' ''task_mk2_cccccc'' Blocks]"
  "routines_store (db world3) = []"
  "preferences_store (db world3) = Some sample_prefs"
  "map audit_id (audit_store (db world3))
     = [''audit_mk1_bbbbbb'', ''audit_mk2_dddddd'', ''audit_mk3_ffffff'']"
  "tasks (state world3) = [new_task plain_digest env1 milk, new_task plain_digest env2 errand]"
  "edges (state world3) = [new_edge env3 ''task_mk1_aaaaaa'' ''task_mk2_cccccc'' Blocks]"
  "routines (state world3) = []"
  "preferences (state world3) = sample_prefs"
  using sample_key_order
  by (simp_all add: world3_eq upsert_def createAuditEntry_def generateId_def env1_def env2_def
      env3_def)

lemma world3_audit_mirror [simp]:
  "map audit_id (auditLog (state world3))
     = [''audit_mk1_bbbbbb'', ''audit_mk2_dddddd'', ''audit_mk3_ffffff'']"
  by (simp add: world3_eq world2_eq createAuditEntry_def generateId_def env1_def env2_def env3_def)

lemma reachable_world2: "reachable plain_digest sample_prefs world2"
proof -
  have "reachable plain_digest sample_prefs
          (snd (run plain_digest sample_prefs env2 (state world1) (CreateTask errand) world1))"
    by (rule reachable.step) (rule reachable_world1)
  then show ?thesis by (simp add: snd_outcome world2_def)
qed

lemma reachable_world3: "reachable plain_digest sample_prefs world3"
proof -
  have "reachable plain_digest sample_prefs
          (snd (run plain_digest sample_prefs env3 (state world2)
                  (AddEdge ''task_mk1_aaaaaa'' ''task_mk2_cccccc'' Blocks) world2))"
    by (rule reachable.step) (rule reachable_world2)
  then show ?thesis by (simp add: world3_def)
qed

lemma audit_fresh_world3:
  "audit_fresh env world3
     = (generateId ''audit'' (audit_ts env) (audit_rand env)
          \<notin> set [''audit_mk1_bbbbbb'', ''audit_mk2_dddddd'', ''audit_mk3_ffffff''])"
  unfolding audit_fresh_def world3_simps(5) by (rule refl)

lemma audit_fresh_env4_world3 [simp]: "audit_fresh env4 world3"
  by (simp add: audit_fresh_world3 generateId_def env4_def)

text \<open>
  The import of the backup replaces the tasks and the edges of the store and throws at
  the routines; the mirror still shows the edge of before.
\<close>

lemma importKernel_backup:
  "importKernel backup (db world3)
     = (Inl TypeError, (db world3)\<lparr>edges_store := [backup_edge]\<rparr>)"
  using sample_key_order
  by (simp add: importKernel_def backup_def Let_def task_key_def generateId_def env1_def env2_def)

lemma importData_backup:
  "importData sample_prefs env4 (Some backup) world3
     = (Inl TypeError, \<lparr>db = (db world3)\<lparr>edges_store := [backup_edge]\<rparr>, state = state world3\<rparr>)"
  by (simp add: importData_eq importKernel_backup)

lemma world4_simps [simp]:
  "tasks_store (db world4) = [new_task plain_digest env1 milk, new_task plain_digest env2 errand]"
  "edges_store (db world4) = [backup_edge]"
  "routines_store (db world4) = []"
  "preferences_store (db world4) = Some sample_prefs"
  "audit_store (db world4) = audit_store (db world3)"
  "state world4 = state world3"
  by (simp_all add: world4_def importData_backup)

lemma reachable_world4: "reachable plain_digest sample_prefs world4"
proof -
  have "reachable plain_digest sample_prefs
          (snd (run plain_digest sample_prefs env4 (state world3) (ImportData (Some backup)) world3))"
    by (rule reachable.step) (rule reachable_world3)
  then show ?thesis by (simp add: world4_def)
qed

lemma audit_fresh_env5_world4 [simp]: "audit_fresh env5 world4"
  by (simp add: audit_fresh_def generateId_def env5_def)

lemma canonicalize_json_ab:
  "canonicalize js_number json_ab = ''{'' @ [CHR 0x22] @ ''a'' @ [CHR 0x22] @ '':{'' @ [CHR 0x22] @ ''x'' @ [CHR 0x22] @ '':true,'' @ [CHR 0x22] @ ''y'' @ [CHR 0x22] @ '':null},'' @ [CHR 0x22] @ ''b'' @ [CHR 0x22] @ '':1}''"
  by code_simp

section \<open>The claims\<close>

subsection \<open>C6: what createTask returns\<close>

text \<open>
  C6, as amended.  \<open>createTask\<close> does not force the status: the task it returns and
  persists carries the status of the draft, whatever that is.  Its \<open>$lds.id\<close> is the
  id \<open>generateId('task')\<close> produced, its \<open>$lds.created\<close> and \<open>$lds.updated\<close> are the
  time read at the call, and the task is in the store and in the mirror afterwards.
\<close>

theorem createTask_keeps_draft_status:
  assumes "createTask dg env taskData w = (Inr task, w')"
  shows "status task = status taskData
     \<and> lds_id (lds task) = generateId ''task'' (gen_ts env) (gen_rand env)
     \<and> created (lds task) = date1 env \<and> updated (lds task) = date1 env
     \<and> task \<in> set (tasks_store (db w')) \<and> task \<in> set (tasks (state w'))"
  using createTask_InrD [OF assms] by (simp add: os_put_mem upsert_mem)

text \<open>The theorem at the sample draft, in the world that holds no task yet.\<close>

theorem createTask_keeps_draft_status_witness:
  "createTask plain_digest env1 milk world0
     = (Inr (new_task plain_digest env1 milk), snd (createTask plain_digest env1 milk world0))
   \<and> status (new_task plain_digest env1 milk) = Pending
   \<and> lds_id (lds (new_task plain_digest env1 milk)) = ''task_mk1_aaaaaa''
   \<and> new_task plain_digest env1 milk
        \<in> set (tasks_store (db (snd (createTask plain_digest env1 milk world0))))"
proof -
  have h: "createTask plain_digest env1 milk world0
     = (Inr (new_task plain_digest env1 milk), snd (createTask plain_digest env1 milk world0))"
    by (simp add: createTask_ok)
  show ?thesis
    using h createTask_keeps_draft_status [OF h]
    by (simp add: milk_def env1_def generateId_def)
qed

text \<open>
  C6 as stated fails: a draft whose status is \<open>completed\<close> is returned and stored with
  status \<open>completed\<close>, not \<open>pending\<close>.
\<close>

theorem createTask_status_counterexample:
  "map_sum id status (fst (createTask plain_digest env1 (milk\<lparr>status := Completed\<rparr>) world0))
     = Inr Completed
   \<and> map status (tasks_store (db (snd (createTask plain_digest env1 (milk\<lparr>status := Completed\<rparr>) world0))))
     = [Completed]"
  by (simp add: createTask_ok)

subsection \<open>C7: createTask and an empty title\<close>

text \<open>
  C7, as amended.  \<open>createTask\<close> does not look at the title; a blank title is turned
  away by the editor before the call, not by the service.  For every draft, one with an
  empty title included, the call succeeds whenever the id generated for its audit entry
  is new: the task is persisted under the draft's title, it is in the mirror, and one
  \<open>task_created\<close> audit entry carrying that title is added to the audit store.
\<close>

theorem createTask_accepts_any_title:
  assumes "audit_fresh env w"
  shows "\<exists>task w'. createTask dg env taskData w = (Inr task, w')
     \<and> title task = title taskData
     \<and> task \<in> set (tasks_store (db w')) \<and> task \<in> set (tasks (state w'))
     \<and> mset (audit_store (db w'))
         = add_mset (createAuditEntry env Task_created ET_task (lds_id (lds task))
                       [(''title'', JStr (title taskData))])
             (mset (audit_store (db w)))"
  using assms by (simp add: createTask_ok os_put_mem upsert_mem audit_mset_logged)

text \<open>The theorem at a draft with an empty title, in the world that holds no task yet.\<close>

theorem createTask_accepts_any_title_witness:
  "audit_fresh env1 world0
   \<and> (\<exists>task w'. createTask plain_digest env1 (milk\<lparr>title := []\<rparr>) world0 = (Inr task, w')
        \<and> title task = []
        \<and> task \<in> set (tasks_store (db w')) \<and> task \<in> set (tasks (state w'))
        \<and> mset (audit_store (db w'))
            = {#createAuditEntry env1 Task_created ET_task (lds_id (lds task)) [(''title'', JStr [])]#})"
  using createTask_accepts_any_title [of env1 world0 plain_digest "milk\<lparr>title := []\<rparr>"]
  by simp

text \<open>
  C7 as stated fails: with an empty title the call returns a task, the store then holds
  a task whose title is empty, and the audit store holds a \<open>task_created\<close> entry.
\<close>

theorem createTask_blank_title_counterexample:
  "fst (createTask plain_digest env1 (milk\<lparr>title := []\<rparr>) world0)
     = Inr (new_task plain_digest env1 (milk\<lparr>title := []\<rparr>))
   \<and> map title (tasks_store (db (snd (createTask plain_digest env1 (milk\<lparr>title := []\<rparr>) world0))))
     = [[]]
   \<and> map action (audit_store (db (snd (createTask plain_digest env1 (milk\<lparr>title := []\<rparr>) world0))))
     = [Task_created]"
  by (simp add: createTask_ok createAuditEntry_def)

subsection \<open>C8: updateTask and an id that is not stored\<close>

text \<open>
  C8, as amended.  \<open>updateTask\<close> makes no existence check: it writes with \<open>put\<close> and
  dispatches \<open>UPSERT_TASK\<close>.  Called with a task whose id neither the store nor the
  mirror holds, it succeeds whenever the id generated for its audit entry is new: the
  task, with its \<open>$lds.updated\<close> and hash refreshed, is added to the store and appended
  to the mirror, and one \<open>task_edited\<close> audit entry is added.
\<close>

theorem updateTask_is_upsert:
  assumes "audit_fresh env w"
    and "lds_id (lds task) \<notin> set (map task_key (tasks_store (db w)))"
    and "find (\<lambda>t. lds_id (lds t) = lds_id (lds task)) (tasks (state w)) = None"
  shows "\<exists>w'. updateTask dg env task w = (Inr (), w')
     \<and> mset (tasks_store (db w')) = add_mset (edited_task dg env task) (mset (tasks_store (db w)))
     \<and> tasks (state w') = tasks (state w) @ [edited_task dg env task]
     \<and> mset (audit_store (db w'))
         = add_mset (createAuditEntry env Task_edited ET_task (lds_id (lds task))
                       [(''title'', JStr (title task))])
             (mset (audit_store (db w)))"
proof -
  have "mset (os_put task_key (edited_task dg env task) (tasks_store (db w)))
        = add_mset (edited_task dg env task) (mset (tasks_store (db w)))"
    using assms(2) by (intro os_put_mset_fresh) simp
  moreover have "upsert task_key (edited_task dg env task) (tasks (state w))
        = tasks (state w) @ [edited_task dg env task]"
    using assms(3) by (intro upsert_new) (simp add: task_key_def)
  ultimately show ?thesis
    using assms(1) by (simp add: updateTask_ok audit_mset_logged)
qed

text \<open>The theorem at a task that was never stored, in the world that holds no task yet.\<close>

theorem updateTask_is_upsert_witness:
  "audit_fresh env1 world0
   \<and> lds_id (lds ghost) \<notin> set (map task_key (tasks_store (db world0)))
   \<and> find (\<lambda>t. lds_id (lds t) = lds_id (lds ghost)) (tasks (state world0)) = None
   \<and> (\<exists>w'. updateTask plain_digest env1 ghost world0 = (Inr (), w')
        \<and> mset (tasks_store (db w')) = {#edited_task plain_digest env1 ghost#}
        \<and> tasks (state w') = [edited_task plain_digest env1 ghost]
        \<and> mset (audit_store (db w'))
            = {#createAuditEntry env1 Task_edited ET_task (lds_id (lds ghost))
                  [(''title'', JStr (title ghost))]#})"
  using updateTask_is_upsert [of env1 world0 ghost plain_digest]
  by simp

text \<open>
  C8 as stated fails: on an empty store \<open>updateTask\<close> succeeds for a task that was never
  stored, after which the store and the mirror hold that task and the audit store holds
  a \<open>task_edited\<close> entry.
\<close>

theorem updateTask_unknown_id_counterexample:
  "fst (updateTask plain_digest env1 ghost world0) = Inr ()
   \<and> map task_key (tasks_store (db (snd (updateTask plain_digest env1 ghost world0))))
       = [''task_ghost'']
   \<and> map task_key (tasks (state (snd (updateTask plain_digest env1 ghost world0))))
       = [''task_ghost'']
   \<and> map action (audit_store (db (snd (updateTask plain_digest env1 ghost world0))))
       = [Task_edited]"
  by (simp add: updateTask_ok createAuditEntry_def upsert_def ghost_def with_lds_def)

subsection \<open>C2: the canonical form does not depend on key order\<close>

text \<open>
  C2.  \<open>canonicalize\<close> is a function of the value alone: it reads no clock, no random
  source and no state, so canonicalizing a value twice gives the same string.  And it
  gives the same string for a value and for every key-permuted copy of it: whenever two
  values differ only in the order in which their objects, at any depth, list their keys,
  their canonical strings are equal.  The relation \<open>key_permuted\<close> holds between a value
  and itself, so the first statement is the case \<open>v' = v\<close> of the second, and between
  an object and every copy that lists the same properties in another order
  (\<open>key_permuted_object\<close>).
\<close>

theorem canonicalize_key_order:
  "key_permuted v v' \<Longrightarrow> canonicalize ns v = canonicalize ns v'"
  by (rule canonicalize_key_permuted)

text \<open>The theorem at two spellings of one object, permuted at both levels.\<close>

theorem canonicalize_key_order_witness:
  "key_permuted json_ba json_ab
   \<and> canonicalize js_number json_ba = canonicalize js_number json_ab
   \<and> canonicalize js_number json_ba
       = ''{'' @ [CHR 0x22] @ ''a'' @ [CHR 0x22] @ '':{'' @ [CHR 0x22] @ ''x'' @ [CHR 0x22]
         @ '':true,'' @ [CHR 0x22] @ ''y'' @ [CHR 0x22] @ '':null},'' @ [CHR 0x22] @ ''b''
         @ [CHR 0x22] @ '':1}''"
  using canonicalize_key_order [OF key_permuted_json_ba_ab, of js_number]
    key_permuted_json_ba_ab canonicalize_json_ab
  by simp

subsection \<open>C1: the stored content hash\<close>

text \<open>
  C1.  \<open>createTask\<close> clears \<open>$lds.content_hash\<close> before it hashes, so the hash it stores
  is the hash of the task with the field cleared (\<open>new_task_hash\<close>).  \<open>updateTask\<close>,
  \<open>completeTask\<close> and \<open>deferTask\<close> hash the task while the previous hash is still in
  the field, and then overwrite the field; the hash they store covers the previous hash
  (\<open>update_paths_keep_stale_hash\<close>).  The theorem runs the four operations on the sample
  task with a digest that has no collisions, the callbacks holding the state of the world
  they are called in: after \<open>createTask\<close> the stored hash is the hash of the stored task
  with its hash field cleared, and after each of the other three it is not.
\<close>

theorem stored_hash_after_each_operation:
  "map (\<lambda>t. content_hash (lds t) = task_hash plain_digest (clear_hash t))
       (tasks_store (db (snd (createTask plain_digest env1 milk world0)))) = [True]
   \<and> map (\<lambda>t. content_hash (lds t) = task_hash plain_digest (clear_hash t))
       (tasks_store (db (snd (updateTask plain_digest env2 (new_task plain_digest env1 milk) world1))))
       = [False]
   \<and> map (\<lambda>t. content_hash (lds t) = task_hash plain_digest (clear_hash t))
       (tasks_store (db (snd (completeTask plain_digest env2 (state world1) ''task_mk1_aaaaaa'' world1))))
       = [False]
   \<and> map (\<lambda>t. content_hash (lds t) = task_hash plain_digest (clear_hash t))
       (tasks_store (db (snd (deferTask plain_digest env2 (state world1) ''task_mk1_aaaaaa'' world1))))
       = [False]"
proof -
  have stale: "content_hash (lds (new_task plain_digest env1 milk)) \<noteq> []"
    by (simp add: new_task_hash task_hash_plain_nonempty)
  note bad = update_paths_keep_stale_hash [OF inj_plain_digest stale, of env2]
  have c: "map (\<lambda>t. content_hash (lds t) = task_hash plain_digest (clear_hash t))
       (tasks_store (db (snd (createTask plain_digest env1 milk world0)))) = [True]"
    using new_task_hash [of plain_digest env1 milk] by (simp add: createTask_ok)
  have u: "map (\<lambda>t. content_hash (lds t) = task_hash plain_digest (clear_hash t))
       (tasks_store (db (snd (updateTask plain_digest env2 (new_task plain_digest env1 milk) world1))))
       = [False]"
    using bad(1) by (simp add: updateTask_ok)
  have k: "map (\<lambda>t. content_hash (lds t) = task_hash plain_digest (clear_hash t))
       (tasks_store (db (snd (completeTask plain_digest env2 (state world1) ''task_mk1_aaaaaa'' world1))))
       = [False]"
    using bad(2) by (simp add: completeTask_ok [OF find_sample_task] generateId_def env1_def)
  have d: "map (\<lambda>t. content_hash (lds t) = task_hash plain_digest (clear_hash t))
       (tasks_store (db (snd (deferTask plain_digest env2 (state world1) ''task_mk1_aaaaaa'' world1))))
       = [False]"
    using bad(3) by (simp add: deferTask_ok [OF find_sample_task] generateId_def env1_def)
  show ?thesis using c u k d by blast
qed

subsection \<open>C10: removeTask and an id that no task carries\<close>

text \<open>
  C10.  Let no task carry the id: none in the state the callback holds, none in the
  mirror, none in the store.  Then \<open>removeTask\<close> runs to completion (given that the id
  generated for the audit entry is new, which is what \<open>add\<close> requires) and records one
  audit entry, in the audit store and at the end of the mirror's log, whose action is
  \<open>task_deleted\<close>, whose entity is the task id and whose details are
  \<open>{title: 'Unknown'}\<close>, although no task was removed: the tasks of the store and of
  the mirror are what they were.
\<close>

theorem removeTask_unknown_id:
  assumes "find (\<lambda>t. lds_id (lds t) = taskId) (tasks snapshot) = None"
    and "find (\<lambda>t. lds_id (lds t) = taskId) (tasks (state w)) = None"
    and "taskId \<notin> set (map task_key (tasks_store (db w)))"
    and "audit_fresh env w"
  shows "\<exists>entry w'. removeTask env snapshot taskId w = (Inr (), w')
     \<and> action entry = Task_deleted
     \<and> entity_type entry = ET_task
     \<and> entity_id entry = taskId
     \<and> details entry = [(''title'', JStr ''Unknown'')]
     \<and> mset (audit_store (db w')) = add_mset entry (mset (audit_store (db w)))
     \<and> auditLog (state w') = auditLog (state w) @ [entry]
     \<and> tasks_store (db w') = tasks_store (db w)
     \<and> tasks (state w') = tasks (state w)"
proof -
  let ?entry = "createAuditEntry env Task_deleted ET_task taskId [(''title'', JStr ''Unknown'')]"
  let ?w' = "logged ?entry (task_removed snapshot taskId w)"
  have run: "removeTask env snapshot taskId w = (Inr (), ?w')"
    using assms(4) by (simp add: removeTask_ok assms(1) title_or_unknown_def)
  have store: "os_delete task_key taskId (tasks_store (db w)) = tasks_store (db w)"
    using assms(3) by (auto simp: os_delete_def intro: filter_True)
  have "\<forall>t\<in>set (tasks (state w)). lds_id (lds t) \<noteq> taskId"
    using assms(2) by (simp add: find_None_iff)
  then have mem: "filter (\<lambda>t. lds_id (lds t) \<noteq> taskId) (tasks (state w)) = tasks (state w)"
    by simp
  have audit: "mset (audit_store (db ?w')) = add_mset ?entry (mset (audit_store (db w)))"
    using audit_mset_logged [OF assms(4), of Task_deleted ET_task taskId
        "[(''title'', JStr ''Unknown'')]"]
    by simp
  have "removeTask env snapshot taskId w = (Inr (), ?w')
     \<and> action ?entry = Task_deleted
     \<and> entity_type ?entry = ET_task
     \<and> entity_id ?entry = taskId
     \<and> details ?entry = [(''title'', JStr ''Unknown'')]
     \<and> mset (audit_store (db ?w')) = add_mset ?entry (mset (audit_store (db w)))
     \<and> auditLog (state ?w') = auditLog (state w) @ [?entry]
     \<and> tasks_store (db ?w') = tasks_store (db w)
     \<and> tasks (state ?w') = tasks (state w)"
    using run audit by (simp add: store mem)
  then show ?thesis by blast
qed

text \<open>
  The theorem in the world that holds the sample task, for an id no task carries: the
  sample task stays where it is, and the audit log now ends with a \<open>task_deleted\<close>
  entry.
\<close>

theorem removeTask_unknown_id_witness:
  "find (\<lambda>t. lds_id (lds t) = ''task_nope'') (tasks (state world1)) = None
   \<and> ''task_nope'' \<notin> set (map task_key (tasks_store (db world1)))
   \<and> audit_fresh env2 world1
   \<and> (\<exists>entry w'. removeTask env2 (state world1) ''task_nope'' world1 = (Inr (), w')
        \<and> action entry = Task_deleted
        \<and> entity_id entry = ''task_nope''
        \<and> details entry = [(''title'', JStr ''Unknown'')]
        \<and> mset (audit_store (db w')) = add_mset entry (mset (audit_store (db world1)))
        \<and> auditLog (state w') = auditLog (state world1) @ [entry]
        \<and> tasks_store (db w') = [new_task plain_digest env1 milk]
        \<and> tasks (state w') = [new_task plain_digest env1 milk])"
proof -
  have f: "find (\<lambda>t. lds_id (lds t) = ''task_nope'') (tasks (state world1)) = None"
    by (simp add: generateId_def env1_def)
  have k: "''task_nope'' \<notin> set (map task_key (tasks_store (db world1)))"
    by (simp add: task_key_def generateId_def env1_def)
  have t: "tasks_store (db world1) = [new_task plain_digest env1 milk]"
      "tasks (state world1) = [new_task plain_digest env1 milk]"
    by simp_all
  show ?thesis
    using removeTask_unknown_id [OF f f k audit_fresh_env2_world1] f k audit_fresh_env2_world1
    unfolding t by blast
qed

subsection \<open>C4: completing a task\<close>




subsection \<open>C5: removing a task removes its edges\<close>




subsection \<open>C9: the audit log only grows\<close>



subsection \<open>C3: export followed by import\<close>

text \<open>
  C3.  The round trip cannot be run: \<open>exportAllData\<close> never produces a document.  Its
  first statement calls \<open>exportKernel\<close>, a name that store/context.tsx neither imports
  nor declares, so in every world the call throws a \<open>ReferenceError\<close> before anything is
  read or logged; no document is returned, no \<open>kernel_exported\<close> entry is added, and the
  world is left as it was.  The function of that name in store/db.ts does what the
  round trip needs (\<open>importKernel_exportKernel\<close>); it is only out of reach of its
  caller.  The theorem states the outcome for every world and every reading of the
  clock, and evaluates it in the world with the two sample tasks and the edge between
  them, where the audit store holds three entries before and after.
\<close>

theorem exportAllData_returns_no_document:
  "exportAllData env w = (Inl ReferenceError, w)
   \<and> run dg dp env snapshot ExportAllData w = (Inl ReferenceError, w)
   \<and> fst (exportAllData env4 world3) = Inl ReferenceError
   \<and> map audit_id (audit_store (db (snd (exportAllData env4 world3))))
       = [''audit_mk1_bbbbbb'', ''audit_mk2_dddddd'', ''audit_mk3_ffffff'']"
  by (simp add: exportAllData_throws outcome_def)

end
